theory Spec2Isabelle
  imports Complex_Main "HOL-Library.Sublist" "HOL-Library.AList" "HOL-Library.Char_ord"
    "HOL-Library.List_Lexorder"
begin

section \<open>Raw data: the decoded JSON values\<close>

text \<open>
  A double: a finite one, as the real it denotes (the sign of a zero is not kept), an
  infinity or a NaN. A Python number is an int or a float.
\<close>

datatype pyfloat = Fin real | PInf | NInf | NaN

datatype number = PyInt int | PyFloat pyfloat

text \<open>
  The dialogue data reaches the program through \<^verbatim>\<open>json.load\<close>: nested dicts, lists,
  strings, numbers, booleans and \<^verbatim>\<open>None\<close>. A dict is an association list in insertion
  order; a dict that Python can hold has pairwise distinct keys, and \<open>map_of\<close> reads a key.
  An integer literal is loaded as an int of any size, every other number as a double. A
  string is a list of characters with code points below 256.
\<close>

datatype json =
    JNull
  | JBool bool
  | JInt int
  | JFloat pyfloat
  | JStr string
  | JList "json list"
  | JDict "(string \<times> json) list"

text \<open>The exceptions of the program, and those of the Python run time it can meet.\<close>

datatype error =
    NotACueException
  | NoCuesException
  | NoVOsException
  | TypeError
  | ValueError
  | OverflowError
  | IndexError
  | KeyError
  | AttributeError

text \<open>
  \<^verbatim>\<open>key in data\<close> for a string key: key membership on a dict, element membership on a
  list, substring test on a string, \<^verbatim>\<open>TypeError\<close> on anything else.
\<close>

fun py_in :: "string \<Rightarrow> json \<Rightarrow> error + bool" where
  "py_in k (JDict kvs) = Inr (map_of kvs k \<noteq> None)"
| "py_in k (JList xs) = Inr (JStr k \<in> set xs)"
| "py_in k (JStr s) = Inr (sublist k s)"
| "py_in k _ = Inl TypeError"

text \<open>\<^verbatim>\<open>data[key]\<close> for a string key: a list or a string takes no string index.\<close>

fun py_getitem :: "json \<Rightarrow> string \<Rightarrow> error + json" where
  "py_getitem (JDict kvs) k = (case map_of kvs k of Some v \<Rightarrow> Inr v | None \<Rightarrow> Inl KeyError)"
| "py_getitem _ k = Inl TypeError"

subsection \<open>Float arithmetic\<close>

text \<open>
  What the program takes from the float arithmetic of the language, as two parameters:
  \<^verbatim>\<open>float(s)\<close> on a string (\<open>None\<close> where Python raises \<^verbatim>\<open>ValueError\<close>), and the
  rounding of a positive magnitude to the nearest double (\<open>None\<close> beyond the largest
  double). Everything below holds for every such pair.
\<close>

record float_arith =
  str_float :: "string \<Rightarrow> pyfloat option"
  round_mag :: "real \<Rightarrow> real option"

text \<open>
  The double nearest to an exact value: rounding is symmetric around 0, and a value
  beyond the range becomes the infinity of its sign.
\<close>

definition round_to_double :: "float_arith \<Rightarrow> real \<Rightarrow> pyfloat" where
  "round_to_double fl s =
     (if s = 0 then Fin 0
      else
        (case round_mag fl \<bar>s\<bar> of
           None \<Rightarrow> if 0 < s then PInf else NInf
         | Some m \<Rightarrow> Fin (if 0 < s then \<bar>m\<bar> else - \<bar>m\<bar>)))"

text \<open>
  \<^verbatim>\<open>float(n)\<close> on an int: exact up to \<open>2 ^ 53\<close>, rounded above, and
  \<^verbatim>\<open>OverflowError\<close> from \<open>2 ^ 1024 - 2 ^ 970\<close> on, the first int that rounds beyond
  the largest double.
\<close>

definition int_float :: "float_arith \<Rightarrow> int \<Rightarrow> error + pyfloat" where
  "int_float fl n =
     (if \<bar>n\<bar> \<le> 2 ^ 53 then Inr (Fin (of_int n))
      else if \<bar>n\<bar> < 2 ^ 1024 - 2 ^ 970 then Inr (round_to_double fl (of_int n))
      else Inl OverflowError)"

text \<open>\<^verbatim>\<open>float(x)\<close> on a value of the data.\<close>

fun py_float :: "float_arith \<Rightarrow> json \<Rightarrow> error + pyfloat" where
  "py_float fl (JInt n) = int_float fl n"
| "py_float fl (JFloat x) = Inr x"
| "py_float fl (JBool b) = Inr (Fin (if b then 1 else 0))"
| "py_float fl (JStr s) = (case str_float fl s of Some x \<Rightarrow> Inr x | None \<Rightarrow> Inl ValueError)"
| "py_float fl _ = Inl TypeError"

text \<open>
  The sum of two doubles. Adding a zero changes nothing; any other finite sum is the
  exact sum rounded.
\<close>

fun fadd :: "float_arith \<Rightarrow> pyfloat \<Rightarrow> pyfloat \<Rightarrow> pyfloat" where
  "fadd fl NaN y = NaN"
| "fadd fl x NaN = NaN"
| "fadd fl PInf NInf = NaN"
| "fadd fl NInf PInf = NaN"
| "fadd fl PInf y = PInf"
| "fadd fl x PInf = PInf"
| "fadd fl NInf y = NInf"
| "fadd fl x NInf = NInf"
| "fadd fl (Fin a) (Fin b) =
     (if a = 0 then Fin b else if b = 0 then Fin a else round_to_double fl (a + b))"

text \<open>
  \<^verbatim>\<open>x + y\<close> on numbers: exact on two ints; otherwise an int operand is converted to a
  float first.
\<close>

fun number_float :: "float_arith \<Rightarrow> number \<Rightarrow> error + pyfloat" where
  "number_float fl (PyInt n) = int_float fl n"
| "number_float fl (PyFloat x) = Inr x"

fun py_add :: "float_arith \<Rightarrow> number \<Rightarrow> number \<Rightarrow> error + number" where
  "py_add fl (PyInt a) (PyInt b) = Inr (PyInt (a + b))"
| "py_add fl x y =
     (case number_float fl x of
        Inl e \<Rightarrow> Inl e
      | Inr u \<Rightarrow>
          (case number_float fl y of
             Inl e \<Rightarrow> Inl e
           | Inr v \<Rightarrow> Inr (PyFloat (fadd fl u v))))"

text \<open>\<^verbatim>\<open>x >= 0\<close> on a number.\<close>

fun nonneg :: "number \<Rightarrow> bool" where
  "nonneg (PyInt n) = (0 \<le> n)"
| "nonneg (PyFloat (Fin r)) = (0 \<le> r)"
| "nonneg (PyFloat PInf) = True"
| "nonneg (PyFloat NInf) = False"
| "nonneg (PyFloat NaN) = False"

text \<open>
  An arithmetic for closed examples: it parses no string and rounds nothing. The examples
  use small integers and sums with 0 only, which no arithmetic rounds.
\<close>

definition exact_arith :: float_arith where
  "exact_arith = \<lparr>str_float = (\<lambda>s. None), round_mag = (\<lambda>x. Some x)\<rparr>"

section \<open>The audio reference pattern\<close>

text \<open>
  \<^verbatim>\<open>vo_re = re.compile(r'^/VO/(?P<cue>\S+)$')\<close>, used with \<^verbatim>\<open>match\<close>. The class
  \<^verbatim>\<open>\S\<close> excludes the white space of \<^verbatim>\<open>str\<close> patterns; \<^verbatim>\<open>$\<close> matches at the end of
  the string and also just before a final newline. \<open>vo_re_match\<close> returns the group
  \<^verbatim>\<open>cue\<close> of the match.
\<close>

definition is_space :: "char \<Rightarrow> bool" where
  "is_space c = (let n = (of_char c :: nat) in
     (9 \<le> n \<and> n \<le> 13) \<or> (28 \<le> n \<and> n \<le> 32) \<or> n = 133 \<or> n = 160)"

definition non_space_run :: "string \<Rightarrow> bool" where
  "non_space_run r = (r \<noteq> [] \<and> list_all (\<lambda>c. \<not> is_space c) r)"

definition vo_re_match :: "string \<Rightarrow> string option" where
  "vo_re_match s =
     (if take 4 s = ''/VO/'' then
        (let r = drop 4 s in
         if non_space_run r then Some r
         else if r \<noteq> [] \<and> last r = CHR 0x0A \<and> non_space_run (butlast r) then Some (butlast r)
         else None)
      else None)"

section \<open>Cues\<close>

text \<open>
  A \<^verbatim>\<open>Cue\<close> object; \<open>cue_text\<close> is its attribute \<^verbatim>\<open>text\<close>. It and \<^verbatim>\<open>choice\<close> hold
  whatever the data holds, \<open>JNull\<close> being Python's \<^verbatim>\<open>None\<close>.
\<close>

record cue =
  cue :: string
  cue_text :: json
  delay :: number
  start_sound :: "string option"
  choice :: json

text \<open>\<^verbatim>\<open>VO.vo_re.match(v)\<close> on a value: only a string can be matched.\<close>

fun match_value :: "json \<Rightarrow> error + string option" where
  "match_value (JStr s) = Inr (vo_re_match s)"
| "match_value _ = Inl TypeError"

text \<open>
  The first part of \<^verbatim>\<open>Cue.from_data\<close>: the identifier read from the field \<^verbatim>\<open>Cue\<close>,
  \<open>None\<close> when the field is absent or does not match.
\<close>

definition primary_cue :: "json \<Rightarrow> error + string option" where
  "primary_cue data =
     (case py_in ''Cue'' data of
        Inl e \<Rightarrow> Inl e
      | Inr False \<Rightarrow> Inr None
      | Inr True \<Rightarrow>
          (case py_getitem data ''Cue'' of
             Inl e \<Rightarrow> Inl e
           | Inr v \<Rightarrow> if v = JStr '''' then Inr (Some '''') else match_value v))"

text \<open>
  \<^verbatim>\<open>float(data['PreLineWait'])\<close> when the key is present, the int 0 otherwise: the delay
  of a cue before the external delay is added, and the initial delay of a dict-shaped
  line-set.
\<close>

definition pre_line_wait :: "float_arith \<Rightarrow> (string \<times> json) list \<Rightarrow> error + number" where
  "pre_line_wait fl kvs =
     (case map_of kvs ''PreLineWait'' of
        Some v \<Rightarrow> (case py_float fl v of Inl e \<Rightarrow> Inl e | Inr x \<Rightarrow> Inr (PyFloat x))
      | None \<Rightarrow> Inr (PyInt 0))"

text \<open>
  The rest of \<^verbatim>\<open>Cue.from_data\<close>, reached only when \<^verbatim>\<open>data\<close> is a dict (on a list or
  a string the first part has raised). The diagnostics it prints are not modelled.
\<close>

definition from_data_fields ::
  "float_arith \<Rightarrow> (string \<times> json) list \<Rightarrow> string \<Rightarrow> number \<Rightarrow> json \<Rightarrow> error + cue" where
  "from_data_fields fl kvs c external_delay ch =
     (let txt = (case map_of kvs ''Text'' of Some v \<Rightarrow> v | None \<Rightarrow> JNull) in
      case pre_line_wait fl kvs of
        Inl e \<Rightarrow> Inl e
      | Inr d \<Rightarrow>
          (case (case map_of kvs ''StartSound'' of Some v \<Rightarrow> match_value v | None \<Rightarrow> Inr None) of
             Inl e \<Rightarrow> Inl e
           | Inr ss \<Rightarrow>
               (case py_add fl d external_delay of
                  Inl e \<Rightarrow> Inl e
                | Inr summed \<Rightarrow>
                    Inr \<lparr>cue = c, cue_text = txt, delay = summed, start_sound = ss,
                         choice = ch\<rparr>)))"

definition from_data ::
  "float_arith \<Rightarrow> json \<Rightarrow> number \<Rightarrow> json \<Rightarrow> error + cue" where
  "from_data fl data external_delay ch =
     (case primary_cue data of
        Inl e \<Rightarrow> Inl e
      | Inr None \<Rightarrow> Inl NotACueException
      | Inr (Some c) \<Rightarrow>
          (case data of
             JDict kvs \<Rightarrow> from_data_fields fl kvs c external_delay ch
           | _ \<Rightarrow> Inl TypeError))"

section \<open>Line-sets\<close>

text \<open>\<^verbatim>\<open>str(num)\<close> for a number of \<^verbatim>\<open>range\<close>: its decimal digits.\<close>

fun str_nat :: "nat \<Rightarrow> string" where
  "str_nat n =
     (if n < 10 then [char_of (48 + n)] else str_nat (n div 10) @ [char_of (48 + n mod 10)])"

declare str_nat.simps [simp del]

text \<open>
  The list shape: \<^verbatim>\<open>for cue_data in data\<close>, appending the cue of every element and
  passing over \<^verbatim>\<open>NotACueException\<close>.
\<close>

fun list_cues :: "float_arith \<Rightarrow> json list \<Rightarrow> cue list \<Rightarrow> error + cue list" where
  "list_cues fl [] cues = Inr cues"
| "list_cues fl (cue_data # rest) cues =
     (case from_data fl cue_data (PyInt 0) JNull of
        Inr c \<Rightarrow> list_cues fl rest (cues @ [c])
      | Inl e \<Rightarrow> if e = NotACueException then list_cues fl rest cues else Inl e)"

definition choice_text :: "(string \<times> json) list \<Rightarrow> json" where
  "choice_text kvs = (case map_of kvs ''ChoiceText'' of Some v \<Rightarrow> v | None \<Rightarrow> JNull)"

text \<open>
  The test on an indexed entry: a dict with a key \<^verbatim>\<open>Choices\<close> that holds a list; the
  result is that list.
\<close>

fun choices_of :: "json \<Rightarrow> json list option" where
  "choices_of (JDict ekvs) =
     (case map_of ekvs ''Choices'' of Some (JList xs) \<Rightarrow> Some xs | _ \<Rightarrow> None)"
| "choices_of _ = None"

text \<open>The block that adds \<^verbatim>\<open>EndCue\<close>, with the delay of \<^verbatim>\<open>EndWait\<close>.\<close>

definition end_cue ::
  "float_arith \<Rightarrow> (string \<times> json) list \<Rightarrow> json \<Rightarrow> cue list \<Rightarrow> error + cue list" where
  "end_cue fl kvs ch cues =
     (case map_of kvs ''EndCue'' of
        None \<Rightarrow> Inr cues
      | Some v \<Rightarrow>
          if v = JNull then Inr cues
          else
            (case match_value v of
               Inl e \<Rightarrow> Inl e
             | Inr None \<Rightarrow> Inr cues
             | Inr (Some c) \<Rightarrow>
                 (case (case map_of kvs ''EndWait'' of
                          None \<Rightarrow> Inr (PyInt 0)
                        | Some w \<Rightarrow>
                            if w = JNull then Inr (PyInt 0)
                            else
                              (case py_float fl w of
                                 Inl e \<Rightarrow> Inl e
                               | Inr x \<Rightarrow> Inr (PyFloat x))) of
                    Inl e \<Rightarrow> Inl e
                  | Inr end_delay \<Rightarrow>
                      Inr (cues @ [\<lparr>cue = c, cue_text = JNull, delay = end_delay,
                                    start_sound = None, choice = ch\<rparr>]))))"

text \<open>
  \<^verbatim>\<open>try: cues.extend(VO(...).cues) except NoCuesException: pass\<close>, given the outcome of
  the inner construction.
\<close>

definition splice :: "cue list \<Rightarrow> error + cue list \<Rightarrow> error + cue list" where
  "splice cues r =
     (case r of
        Inr cs \<Rightarrow> Inr (cues @ cs)
      | Inl e \<Rightarrow> if e = NoCuesException then Inr cues else Inl e)"

text \<open>The end of \<^verbatim>\<open>VO.__init__\<close>: no cue is an error, and the first delay is set to 0.\<close>

definition VO_finish :: "cue list \<Rightarrow> error + cue list" where
  "VO_finish cues =
     (if length cues = 0 then Inl NoCuesException
      else Inr (cues[0 := (cues ! 0)\<lparr>delay := PyInt 0\<rparr>]))"

lemma size_map_of:
  "map_of kvs k = Some v \<Longrightarrow> size v < size (JDict kvs)"
  by (induction kvs) (auto split: if_splits)

lemma size_choices_of:
  "choices_of entry = Some xs \<Longrightarrow> size_list size xs < size entry"
  by (cases entry) (auto split: option.splits json.splits dest!: size_map_of)

text \<open>
  \<^verbatim>\<open>VO.__init__\<close>, as the list \<^verbatim>\<open>self.cues\<close> it leaves. \<open>VO_sub\<close> is the loop over
  nested line-sets (the choices of an entry, the elements of \<^verbatim>\<open>EndVoiceLines\<close>) and
  \<open>VO_indexed\<close> the loop over \<^verbatim>\<open>range(len(data.keys()))\<close>, which carries the cues so
  far and \<^verbatim>\<open>initial_delay\<close>.
\<close>

function VO_init :: "float_arith \<Rightarrow> json \<Rightarrow> error + cue list"
  and VO_sub :: "float_arith \<Rightarrow> json list \<Rightarrow> cue list \<Rightarrow> error + cue list"
  and VO_indexed ::
    "float_arith \<Rightarrow> (string \<times> json) list \<Rightarrow> json \<Rightarrow> nat list \<Rightarrow> cue list \<Rightarrow> number
      \<Rightarrow> error + cue list \<times> number"
where
  "VO_init fl data =
     (case data of
        JList xs \<Rightarrow>
          (case list_cues fl xs [] of Inl e \<Rightarrow> Inl e | Inr cues \<Rightarrow> VO_finish cues)
      | JDict kvs \<Rightarrow>
          (case pre_line_wait fl kvs of
             Inl e \<Rightarrow> Inl e
           | Inr d0 \<Rightarrow>
               (case VO_indexed fl kvs (choice_text kvs) [0..<length kvs] [] d0 of
                  Inl e \<Rightarrow> Inl e
                | Inr (cues1, d1) \<Rightarrow>
                    (case end_cue fl kvs (choice_text kvs) cues1 of
                       Inl e \<Rightarrow> Inl e
                     | Inr cues2 \<Rightarrow>
                         (case (case map_of kvs ''EndVoiceLines'' of
                                  Some (JDict ekvs) \<Rightarrow> splice cues2 (VO_init fl (JDict ekvs))
                                | Some (JList xs) \<Rightarrow> VO_sub fl xs cues2
                                | _ \<Rightarrow> Inr cues2) of
                            Inl e \<Rightarrow> Inl e
                          | Inr cues3 \<Rightarrow> VO_finish cues3))))
      | _ \<Rightarrow> VO_finish [])"
| "VO_sub fl [] cues = Inr cues"
| "VO_sub fl (sub_data # rest) cues =
     (case splice cues (VO_init fl sub_data) of
        Inl e \<Rightarrow> Inl e
      | Inr cues' \<Rightarrow> VO_sub fl rest cues')"
| "VO_indexed fl kvs ch [] cues d = Inr (cues, d)"
| "VO_indexed fl kvs ch (num # nums) cues d =
     (case map_of kvs (str_nat num) of
        None \<Rightarrow> VO_indexed fl kvs ch nums cues d
      | Some entry \<Rightarrow>
          (case choices_of entry of
             Some xs \<Rightarrow>
               (case VO_sub fl xs cues of
                  Inl e \<Rightarrow> Inl e
                | Inr cues' \<Rightarrow> VO_indexed fl kvs ch nums cues' d)
           | None \<Rightarrow>
               (case from_data fl entry d ch of
                  Inr c \<Rightarrow> VO_indexed fl kvs ch nums (cues @ [c]) (PyInt 0)
                | Inl e \<Rightarrow>
                    if e = NotACueException then VO_indexed fl kvs ch nums cues d else Inl e)))"
  by pat_completeness auto
termination
proof (relation "measures
    [\<lambda>x. case x of
        Inl (fl, data) \<Rightarrow> size data
      | Inr (Inl (fl, xs, cues)) \<Rightarrow> size_list size xs
      | Inr (Inr (fl, kvs, ch, nums, cues, d)) \<Rightarrow> size (JDict kvs),
     \<lambda>x. case x of
        Inl (fl, data) \<Rightarrow> (case data of JDict kvs \<Rightarrow> Suc (length kvs) | _ \<Rightarrow> 0)
      | Inr (Inl (fl, xs, cues)) \<Rightarrow> 0
      | Inr (Inr (fl, kvs, ch, nums, cues, d)) \<Rightarrow> length nums]")
  show "wf (measures
    [\<lambda>x. case x of
        Inl (fl, data) \<Rightarrow> size data
      | Inr (Inl (fl, xs, cues)) \<Rightarrow> size_list size xs
      | Inr (Inr (fl, kvs, ch, nums, cues, d)) \<Rightarrow> size (JDict kvs),
     \<lambda>x. case x of
        Inl (fl, data) \<Rightarrow> (case data of JDict kvs \<Rightarrow> Suc (length kvs) | _ \<Rightarrow> 0)
      | Inr (Inl (fl, xs, cues)) \<Rightarrow> 0
      | Inr (Inr (fl, kvs, ch, nums, cues, d)) \<Rightarrow> length nums])"
    by simp
qed (auto dest!: size_map_of size_choices_of)

declare VO_init.simps [simp del]

text \<open>
  The optional fields of a cue map have the types the data format gives them, and the
  delay can be computed: \<^verbatim>\<open>PreLineWait\<close> converts to a float, its sum with the external
  delay does not raise, and \<^verbatim>\<open>StartSound\<close> is a string.
\<close>

definition optional_fields_ok :: "float_arith \<Rightarrow> (string \<times> json) list \<Rightarrow> number \<Rightarrow> bool" where
  "optional_fields_ok fl kvs external_delay =
     ((case pre_line_wait fl kvs of
         Inr d \<Rightarrow> (case py_add fl d external_delay of Inr summed \<Rightarrow> True | Inl e \<Rightarrow> False)
       | Inl e \<Rightarrow> False) \<and>
      (case map_of kvs ''StartSound'' of
         Some v \<Rightarrow> (case v of JStr s \<Rightarrow> True | _ \<Rightarrow> False)
       | None \<Rightarrow> True))"

text \<open>
  The entry at index \<open>i\<close> of a dict-shaped line-set, when there is one, is handed to
  \<^verbatim>\<open>Cue.from_data\<close> (it holds no list of choices) and \<^verbatim>\<open>Cue.from_data\<close> raises
  \<^verbatim>\<open>NotACueException\<close> on it.
\<close>

definition entry_not_a_cue :: "float_arith \<Rightarrow> (string \<times> json) list \<Rightarrow> nat \<Rightarrow> bool" where
  "entry_not_a_cue fl kvs i =
     (case map_of kvs (str_nat i) of
        None \<Rightarrow> True
      | Some entry \<Rightarrow>
          choices_of entry = None \<and> from_data fl entry (PyInt 0) JNull = Inl NotACueException)"

text \<open>The keys of a dict-shaped line-set that \<^verbatim>\<open>VO.__init__\<close> reads by name.\<close>

definition line_set_fields :: "string list" where
  "line_set_fields = [''PreLineWait'', ''ChoiceText'', ''EndCue'', ''EndWait'', ''EndVoiceLines'']"

text \<open>
  The identifiers of the entries at the given indices that are handed to
  \<^verbatim>\<open>Cue.from_data\<close> and have a matching \<^verbatim>\<open>Cue\<close> field, in the order of the indices.
\<close>

fun indexed_ids :: "(string \<times> json) list \<Rightarrow> nat list \<Rightarrow> string list" where
  "indexed_ids kvs [] = []"
| "indexed_ids kvs (i # rest) =
     (case map_of kvs (str_nat i) of
        None \<Rightarrow> indexed_ids kvs rest
      | Some entry \<Rightarrow>
          (case choices_of entry of
             Some xs \<Rightarrow> indexed_ids kvs rest
           | None \<Rightarrow>
               (case primary_cue entry of
                  Inr (Some c) \<Rightarrow> c # indexed_ids kvs rest
                | _ \<Rightarrow> indexed_ids kvs rest)))"

section \<open>Banks\<close>

text \<open>A \<^verbatim>\<open>VO\<close> object: the cues of \<^verbatim>\<open>VO.__init__\<close> and the label it was given.\<close>

record vo =
  vo_cues :: "cue list"
  vo_label :: "string option"

definition VO :: "float_arith \<Rightarrow> json \<Rightarrow> string option \<Rightarrow> error + vo" where
  "VO fl data lbl =
     (case VO_init fl data of
        Inl e \<Rightarrow> Inl e
      | Inr cs \<Rightarrow> Inr \<lparr>vo_cues = cs, vo_label = lbl\<rparr>)"

text \<open>
  A \<^verbatim>\<open>Bank\<close>: its groups (raw key, display name, bucket from label to line-set) and the
  flattened dict \<^verbatim>\<open>combined\<close>. Buckets and \<^verbatim>\<open>combined\<close> are dicts in insertion order;
  \<open>AList.update\<close> is the assignment \<^verbatim>\<open>d[k] = v\<close>.
\<close>

record bank =
  bank_name :: string
  bank_groups :: "(string \<times> string \<times> (string \<times> vo) list) list"
  bank_combined :: "(string \<times> vo) list"

text \<open>
  The inner loop of \<^verbatim>\<open>Bank.__init__\<close> over \<^verbatim>\<open>data[key].items()\<close>. The state is the
  bucket \<^verbatim>\<open>obj\<close>, \<^verbatim>\<open>self.combined\<close> and the labels of the warnings printed so far
  (\<^verbatim>\<open>WARNING: ... found in more than one category\<close>). A line-set that raises
  \<^verbatim>\<open>NoCuesException\<close> is passed over; any other exception ends the construction.
\<close>

fun Bank_linesets ::
  "float_arith \<Rightarrow> (string \<times> json) list
    \<Rightarrow> (string \<times> vo) list \<times> (string \<times> vo) list \<times> string list
    \<Rightarrow> error + (string \<times> vo) list \<times> (string \<times> vo) list \<times> string list" where
  "Bank_linesets fl [] s = Inr s"
| "Bank_linesets fl ((lbl, lineset) # rest) (obj, comb, warned) =
     (case VO fl lineset (Some lbl) of
        Inr v \<Rightarrow>
          (let obj' = AList.update lbl v obj in
           if map_of comb lbl \<noteq> None then
             (if lbl \<noteq> ''HermesPostEnding01''
              then Bank_linesets fl rest (obj', comb, warned @ [lbl])
              else Bank_linesets fl rest (obj', comb, warned))
           else Bank_linesets fl rest (obj', AList.update lbl v comb, warned))
      | Inl e \<Rightarrow>
          if e = NoCuesException then Bank_linesets fl rest (obj, comb, warned) else Inl e)"

text \<open>
  The outer loop over \<^verbatim>\<open>self.groups\<close>: a group is filled when its key is in the data
  and holds a dict. The groups already visited are kept in order.
\<close>

fun Bank_groups ::
  "float_arith \<Rightarrow> json \<Rightarrow> (string \<times> string \<times> (string \<times> vo) list) list
    \<Rightarrow> (string \<times> string \<times> (string \<times> vo) list) list \<times> (string \<times> vo) list \<times> string list
    \<Rightarrow> error + (string \<times> string \<times> (string \<times> vo) list) list \<times> (string \<times> vo) list \<times> string list"
  where
  "Bank_groups fl data [] s = Inr s"
| "Bank_groups fl data ((key, name, obj) # gs) (visited, comb, warned) =
     (case py_in key data of
        Inl e \<Rightarrow> Inl e
      | Inr False \<Rightarrow> Bank_groups fl data gs (visited @ [(key, name, obj)], comb, warned)
      | Inr True \<Rightarrow>
          (case py_getitem data key of
             Inl e \<Rightarrow> Inl e
           | Inr (JDict items) \<Rightarrow>
               (case Bank_linesets fl items (obj, comb, warned) of
                  Inl e \<Rightarrow> Inl e
                | Inr (obj', comb', warned') \<Rightarrow>
                    Bank_groups fl data gs (visited @ [(key, name, obj')], comb', warned'))
           | Inr _ \<Rightarrow> Bank_groups fl data gs (visited @ [(key, name, obj)], comb, warned)))"

text \<open>
  \<^verbatim>\<open>Bank.__init__\<close>: the bank and the warnings printed, or \<^verbatim>\<open>NoVOsException\<close> when
  every bucket is empty.
\<close>

definition Bank_init ::
  "float_arith \<Rightarrow> string \<Rightarrow> (string \<times> string \<times> (string \<times> vo) list) list \<Rightarrow> json
    \<Rightarrow> error + bank \<times> string list" where
  "Bank_init fl name groups data =
     (case Bank_groups fl data groups ([], [], []) of
        Inl e \<Rightarrow> Inl e
      | Inr (visited, comb, warned) \<Rightarrow>
          if list_all (\<lambda>(key, label, d). length d = 0) visited then Inl NoVOsException
          else Inr (\<lparr>bank_name = name, bank_groups = visited, bank_combined = comb\<rparr>, warned))"

text \<open>The three kinds of bank, by their groups.\<close>

definition NPCBank_groups :: "(string \<times> string \<times> (string \<times> vo) list) list" where
  "NPCBank_groups =
     [(''InteractTextLineSets'', ''Interacts'', []),
      (''RepeatableTextLineSets'', ''Repeatables'', []),
      (''GiftTextLineSets'', ''Gifts'', [])]"

definition EnemyBank_groups :: "(string \<times> string \<times> (string \<times> vo) list) list" where
  "EnemyBank_groups =
     [(''BossPresentationIntroTextLineSets'', ''Intros'', []),
      (''BossPresentationTextLineSets'', ''Basic Conversations'', []),
      (''BossPresentationPriorityIntroTextLineSets'', ''Priorities'', []),
      (''BossPresentationSuperPriorityIntroTextLineSets'', ''Super Priorities'', []),
      (''BossPresentationRepeatableTextLineSets'', ''Repeatables'', [])]"

definition LootBank_groups :: "(string \<times> string \<times> (string \<times> vo) list) list" where
  "LootBank_groups =
     [(''PickupTextLineSets'', ''Pickups'', []),
      (''DuoPickupTextLineSets'', ''Duos'', []),
      (''BoughtTextLines'', ''Bought'', []),
      (''GiftTextLineSets'', ''Gifts'', []),
      (''PriorityPickupTextLineSets'', ''Priorities'', []),
      (''SuperPriorityPickupTextLineSets'', ''Super Priorities'', []),
      (''RejectionTextLines'', ''Rejections'', []),
      (''MakeUpTextLines'', ''Makeups'', [])]"

definition NPCBank :: "float_arith \<Rightarrow> string \<Rightarrow> json \<Rightarrow> error + bank \<times> string list" where
  "NPCBank fl name data = Bank_init fl name NPCBank_groups data"

definition EnemyBank :: "float_arith \<Rightarrow> string \<Rightarrow> json \<Rightarrow> error + bank \<times> string list" where
  "EnemyBank fl name data = Bank_init fl name EnemyBank_groups data"

definition LootBank :: "float_arith \<Rightarrow> string \<Rightarrow> json \<Rightarrow> error + bank \<times> string list" where
  "LootBank fl name data = Bank_init fl name LootBank_groups data"

text \<open>
  The line-sets that are built, in the order in which \<^verbatim>\<open>Bank.__init__\<close> meets them:
  those of a dict of line-sets, those of the group of a key, and those of all groups.
\<close>

fun built_linesets :: "float_arith \<Rightarrow> (string \<times> json) list \<Rightarrow> (string \<times> vo) list" where
  "built_linesets fl [] = []"
| "built_linesets fl ((lbl, lineset) # rest) =
     (case VO fl lineset (Some lbl) of
        Inr v \<Rightarrow> (lbl, v) # built_linesets fl rest
      | Inl e \<Rightarrow> built_linesets fl rest)"

definition group_items :: "json \<Rightarrow> string \<Rightarrow> (string \<times> json) list" where
  "group_items data key =
     (case py_in key data of
        Inr True \<Rightarrow> (case py_getitem data key of Inr (JDict items) \<Rightarrow> items | _ \<Rightarrow> [])
      | _ \<Rightarrow> [])"

definition all_built ::
  "float_arith \<Rightarrow> json \<Rightarrow> (string \<times> string \<times> (string \<times> vo) list) list
    \<Rightarrow> (string \<times> vo) list" where
  "all_built fl data groups =
     concat (map (\<lambda>(key, name, obj). built_linesets fl (group_items data key)) groups)"

text \<open>
  The repeated occurrences in a list of labels: every occurrence of a label that is in
  \<open>seen\<close> or has occurred before it, in order.
\<close>

fun repeated_from :: "string list \<Rightarrow> string list \<Rightarrow> string list" where
  "repeated_from seen [] = []"
| "repeated_from seen (x # xs) =
     (if x \<in> set seen then x # repeated_from seen xs else repeated_from (x # seen) xs)"

text \<open>The labels whose repetition is reported: all but the one tolerated collision.\<close>

definition not_tolerated :: "string \<Rightarrow> bool" where
  "not_tolerated lbl = (lbl \<noteq> ''HermesPostEnding01'')"

text \<open>A loot section with the tolerated collision and another one, and the line-set of one cue.\<close>

definition demo_loot :: json where
  "demo_loot = JDict
     [(''PriorityPickupTextLineSets'', JDict
         [(''HermesPostEnding01'', JList [JDict [(''Cue'', JStr ''/VO/Hermes_1'')]]),
          (''HermesGift01'', JList [JDict [(''Cue'', JStr ''/VO/Hermes_2'')]])]),
      (''SuperPriorityPickupTextLineSets'', JDict
         [(''HermesPostEnding01'', JList [JDict [(''Cue'', JStr ''/VO/Hermes_3'')]]),
          (''HermesGift01'', JList [JDict [(''Cue'', JStr ''/VO/Hermes_4'')]])])]"

definition demo_vo :: "string \<Rightarrow> string \<Rightarrow> vo" where
  "demo_vo lbl c =
     \<lparr>vo_cues = [\<lparr>cue = c, cue_text = JNull, delay = PyInt 0, start_sound = None,
                  choice = JNull\<rparr>],
      vo_label = Some lbl\<rparr>"

section \<open>Interactive navigation\<close>

text \<open>
  The registries of the application: for each kind the dict \<^verbatim>\<open>Registry.data\<close> from an
  entity name to its bank.
\<close>

record app =
  npc :: "(string \<times> bank) list"
  enemy :: "(string \<times> bank) list"
  loot :: "(string \<times> bank) list"

text \<open>
  What an \<^verbatim>\<open>Option\<close> carries in \<^verbatim>\<open>data\<close>: a registry, a bank, a bucket of a bank or a
  line-set.
\<close>

datatype odata =
    DRegistry "(string \<times> bank) list"
  | DBank bank
  | DCategory "(string \<times> vo) list"
  | DVO vo

record opt =
  o_label :: string
  o_data :: odata
  o_pos :: nat
  o_breadcrumb_label :: string

text \<open>\<^verbatim>\<open>Option(label, data, pos)\<close>: the breadcrumb label defaults to the label.\<close>

definition Option :: "string \<Rightarrow> odata \<Rightarrow> nat \<Rightarrow> opt" where
  "Option lbl d p = \<lparr>o_label = lbl, o_data = d, o_pos = p, o_breadcrumb_label = lbl\<rparr>"

text \<open>A \<^verbatim>\<open>Breadcrumb\<close>: the option chosen and the list of options it was chosen from.\<close>

record breadcrumb =
  bc_option :: opt
  prev_options :: "opt list"

datatype result = PLAY | AUTOPLAY | AUTOPLAY_ALL

text \<open>What \<^verbatim>\<open>process_options\<close> returns: a breadcrumb, an option or a \<^verbatim>\<open>Result\<close>.\<close>

datatype answer = ABreadcrumb breadcrumb | AOption opt | AResult result

text \<open>
  How a piece of the program ends: it returns, it exits the process (\<^verbatim>\<open>sys.exit\<close>), it
  raises, or it waits for input that never comes.
\<close>

datatype 'a outcome = Return 'a | Exit nat | Raise error | Blocked

subsection \<open>Reading the response\<close>

text \<open>\<^verbatim>\<open>resp.strip().lower()\<close> on characters with code points below 256.\<close>

definition py_strip :: "string \<Rightarrow> string" where
  "py_strip s = rev (dropWhile is_space (rev (dropWhile is_space s)))"

definition py_lower_char :: "char \<Rightarrow> char" where
  "py_lower_char c = (let n = (of_char c :: nat) in
     if (65 \<le> n \<and> n \<le> 90) \<or> (192 \<le> n \<and> n \<le> 222 \<and> n \<noteq> 215) then char_of (n + 32) else c)"

definition py_lower :: "string \<Rightarrow> string" where
  "py_lower s = map py_lower_char s"

text \<open>
  \<^verbatim>\<open>int(resp)\<close>: white space around, an optional sign, and decimal digits with single
  underscores between them; \<open>None\<close> where Python raises \<^verbatim>\<open>ValueError\<close>. (The limit of
  recent Python versions on the number of digits is not modelled.)
\<close>

definition is_digit :: "char \<Rightarrow> bool" where
  "is_digit c = (48 \<le> (of_char c :: nat) \<and> (of_char c :: nat) \<le> 57)"

definition digit_val :: "char \<Rightarrow> nat" where
  "digit_val c = of_char c - 48"

fun int_digits :: "nat \<Rightarrow> string \<Rightarrow> nat option" where
  "int_digits acc [] = Some acc"
| "int_digits acc [c] = (if is_digit c then Some (10 * acc + digit_val c) else None)"
| "int_digits acc (c # d # cs) =
     (if is_digit c then int_digits (10 * acc + digit_val c) (d # cs)
      else if c = CHR ''_'' \<and> is_digit d then int_digits acc (d # cs)
      else None)"

definition unsigned_int :: "string \<Rightarrow> nat option" where
  "unsigned_int s =
     (case s of
        [] \<Rightarrow> None
      | c # cs \<Rightarrow> if is_digit c then int_digits (digit_val c) cs else None)"

definition py_int :: "string \<Rightarrow> int option" where
  "py_int s =
     (case py_strip s of
        [] \<Rightarrow> None
      | c # cs \<Rightarrow>
          if c = CHR ''-'' then map_option (\<lambda>n. - int n) (unsigned_int cs)
          else if c = CHR ''+'' then map_option int (unsigned_int cs)
          else map_option int (unsigned_int (c # cs)))"

subsection \<open>One menu\<close>

text \<open>\<^verbatim>\<open>xs[i]\<close> for an index that is not negative.\<close>

definition py_nth :: "'a list \<Rightarrow> nat \<Rightarrow> error + 'a" where
  "py_nth xs i = (if i < length xs then Inr (xs ! i) else Inl IndexError)"

text \<open>
  What \<^verbatim>\<open>process_options\<close> computes before it prompts: the number of options and the
  commands allowed. \<open>cur_pos\<close> is read only when \<^verbatim>\<open>playing\<close> holds (0 stands for the
  unbound variable otherwise).
\<close>

record menu =
  num_options :: nat
  allow_prev :: bool
  allow_next :: bool
  allow_replay :: bool
  allow_autoplay :: bool
  cur_pos :: nat

definition menu_of :: "opt list \<Rightarrow> breadcrumb list \<Rightarrow> bool \<Rightarrow> error + menu" where
  "menu_of options stack playing =
     (let n = (if length stack = 4 then length (prev_options (last stack)) else length options) in
      if playing then
        (if stack = [] then Inl IndexError
         else
           (let pos = o_pos (bc_option (last stack));
                playlist_len = length (prev_options (last stack)) in
            Inr \<lparr>num_options = n, allow_prev = (pos > 0),
                 allow_next = (int pos < int playlist_len - 1), allow_replay = True,
                 allow_autoplay = (int pos < int playlist_len - 1 \<or> length stack = 3),
                 cur_pos = pos\<rparr>))
      else
        Inr \<lparr>num_options = n, allow_prev = False, allow_next = False, allow_replay = False,
             allow_autoplay = (length stack = 3), cur_pos = 0\<rparr>)"

text \<open>The assignment \<^verbatim>\<open>stack[-1].option = sibling\<close> on a stack that is not empty.\<close>

definition set_top_option :: "breadcrumb list \<Rightarrow> opt \<Rightarrow> breadcrumb list" where
  "set_top_option stack sibling = butlast stack @ [(last stack)\<lparr>bc_option := sibling\<rparr>]"

text \<open>
  \<^verbatim>\<open>stack[-1].option = stack[-1].prev_options[i]\<close>, followed by the return of a
  \<^verbatim>\<open>Result\<close>.
\<close>

definition reselect ::
  "breadcrumb list \<Rightarrow> nat \<Rightarrow> result \<Rightarrow> (answer \<times> breadcrumb list) outcome" where
  "reselect stack i r =
     (if stack = [] then Raise IndexError
      else
        (case py_nth (prev_options (last stack)) i of
           Inl e \<Rightarrow> Raise e
         | Inr sibling \<Rightarrow>
             Return (AResult r, set_top_option stack sibling)))"

text \<open>
  \<^verbatim>\<open>stack.append(Breadcrumb(options[i], options))\<close>, followed by the return of \<open>ans\<close>
  applied to the option.
\<close>

definition descend ::
  "opt list \<Rightarrow> breadcrumb list \<Rightarrow> nat \<Rightarrow> (opt \<Rightarrow> answer) \<Rightarrow> (answer \<times> breadcrumb list) outcome" where
  "descend options stack i ans =
     (case py_nth options i of
        Inl e \<Rightarrow> Raise e
      | Inr chosen \<Rightarrow>
          Return (ans chosen, stack @ [\<lparr>bc_option = chosen, prev_options = options\<rparr>]))"

text \<open>
  One pass of the prompt loop on the response \<open>resp\<close> (already stripped and in lower
  case): \<open>None\<close> is \<^verbatim>\<open>continue\<close>, after an error message. The stack is returned as the
  pass leaves it.
\<close>

definition respond ::
  "menu \<Rightarrow> opt list \<Rightarrow> breadcrumb list \<Rightarrow> string \<Rightarrow> (answer \<times> breadcrumb list) outcome option" where
  "respond m options stack resp =
     (if resp = ''q'' then Some (Exit 0)
      else if length stack > 0 \<and> resp = ''b'' then
        Some (Return (ABreadcrumb (last stack), butlast stack))
      else if allow_replay m \<and> resp = ''r'' then Some (Return (AResult PLAY, stack))
      else if allow_prev m \<and> resp = ''p'' then Some (reselect stack (cur_pos m - 1) PLAY)
      else if allow_next m \<and> resp = ''n'' then Some (reselect stack (cur_pos m + 1) PLAY)
      else if allow_autoplay m \<and> resp = ''a'' then
        (if length stack = 3 then Some (descend options stack 0 (\<lambda>chosen. AResult AUTOPLAY_ALL))
         else Some (reselect stack (cur_pos m + 1) AUTOPLAY))
      else if num_options m > 0 then
        (case py_int resp of
           None \<Rightarrow> None
         | Some intval \<Rightarrow>
             if intval < 1 \<or> intval > int (num_options m) then None
             else if length stack = 4 then Some (reselect stack (nat (intval - 1)) PLAY)
             else Some (descend options stack (nat (intval - 1)) AOption))
      else None)"

text \<open>
  The prompt loop on the lines the user types, and \<^verbatim>\<open>process_options\<close>. The result
  comes with the lines not yet read. The table printed before the prompt is not modelled.
\<close>

fun prompt_loop ::
  "menu \<Rightarrow> opt list \<Rightarrow> breadcrumb list \<Rightarrow> string list
    \<Rightarrow> (answer \<times> breadcrumb list) outcome \<times> string list" where
  "prompt_loop m options stack [] = (Blocked, [])"
| "prompt_loop m options stack (line # rest) =
     (case respond m options stack (py_lower (py_strip line)) of
        None \<Rightarrow> prompt_loop m options stack rest
      | Some out \<Rightarrow> (out, rest))"

definition process_options ::
  "opt list \<Rightarrow> breadcrumb list \<Rightarrow> bool \<Rightarrow> string list
    \<Rightarrow> (answer \<times> breadcrumb list) outcome \<times> string list" where
  "process_options options stack playing lines =
     (case menu_of options stack playing of
        Inl e \<Rightarrow> (Raise e, lines)
      | Inr m \<Rightarrow> prompt_loop m options stack lines)"

subsection \<open>The main loop\<close>

text \<open>The variables of \<^verbatim>\<open>App.run\<close>; \<open>None\<close> in \<open>rs_options\<close> is Python's \<^verbatim>\<open>None\<close>.\<close>

record run_state =
  rs_playing :: bool
  rs_autoplaying :: bool
  rs_options :: "opt list option"
  rs_stack :: "breadcrumb list"

definition run_init :: run_state where
  "run_init = \<lparr>rs_playing = False, rs_autoplaying = False, rs_options = None, rs_stack = []\<rparr>"

text \<open>The options of each depth, as the \<^verbatim>\<open>match len(stack)\<close> statement builds them.\<close>

definition category_options :: "app \<Rightarrow> opt list" where
  "category_options a =
     [Option ''NPCs'' (DRegistry (npc a)) 0,
      Option ''Enemies'' (DRegistry (enemy a)) 1,
      Option ''Loot'' (DRegistry (loot a)) 2]"

text \<open>
  Depth 1: \<^verbatim>\<open>enumerate(sorted(data.items()))\<close>. A registry has \<^verbatim>\<open>items\<close>, and so has a
  dict; a bank and a line-set have not.
\<close>

definition entity_options :: "odata \<Rightarrow> error + opt list" where
  "entity_options d =
     (case d of
        DRegistry r \<Rightarrow>
          Inr (map (\<lambda>(num, (name, b)). Option name (DBank b) num) (enumerate 0 (sort_key fst r)))
      | DCategory c \<Rightarrow>
          Inr (map (\<lambda>(num, (name, v)). Option name (DVO v) num) (enumerate 0 (sort_key fst c)))
      | _ \<Rightarrow> Inl AttributeError)"

text \<open>Depth 2: the groups of the bank whose bucket is not empty, numbered from 0.\<close>

definition bucket_options :: "odata \<Rightarrow> error + opt list" where
  "bucket_options d =
     (case d of
        DBank b \<Rightarrow>
          Inr (map (\<lambda>(num, (key, name, category)). Option name (DCategory category) num)
                 (enumerate 0 (filter (\<lambda>(key, name, category). length category > 0)
                                  (bank_groups b))))
      | _ \<Rightarrow> Inl AttributeError)"

text \<open>
  Depth 3: the line-sets of the bucket in insertion order, the breadcrumb label giving the
  ordinal and the total. Only a dict has a length.
\<close>

definition lineset_options :: "odata \<Rightarrow> error + opt list" where
  "lineset_options d =
     (case d of
        DCategory c \<Rightarrow>
          Inr (map (\<lambda>(num, (key, v)).
                      \<lparr>o_label = key, o_data = DVO v, o_pos = num,
                       o_breadcrumb_label =
                         ''([dim cyan]'' @ str_nat (num + 1) @ ''[/dim cyan]/[dim cyan]'' @
                         str_nat (length c) @ ''[/dim cyan]) '' @ key\<rparr>)
                 (enumerate 0 c))
      | _ \<Rightarrow> Inl TypeError)"

text \<open>\<^verbatim>\<open>stack[-1].option.data\<close> on a stack that is not empty.\<close>

definition top_data :: "breadcrumb list \<Rightarrow> odata" where
  "top_data stack = o_data (bc_option (last stack))"

text \<open>The block \<^verbatim>\<open>if options is None\<close>.\<close>

definition fill_options :: "app \<Rightarrow> run_state \<Rightarrow> run_state outcome" where
  "fill_options a st =
     (case rs_options st of
        Some options \<Rightarrow> Return st
      | None \<Rightarrow>
          (let n = length (rs_stack st) in
           if n = 0 then Return (st\<lparr>rs_options := Some (category_options a)\<rparr>)
           else if n = 1 then
             (case entity_options (top_data (rs_stack st)) of
                Inl e \<Rightarrow> Raise e
              | Inr options \<Rightarrow> Return (st\<lparr>rs_options := Some options\<rparr>))
           else if n = 2 then
             (case bucket_options (top_data (rs_stack st)) of
                Inl e \<Rightarrow> Raise e
              | Inr options \<Rightarrow> Return (st\<lparr>rs_options := Some options\<rparr>))
           else if n = 3 then
             (case lineset_options (top_data (rs_stack st)) of
                Inl e \<Rightarrow> Raise e
              | Inr options \<Rightarrow> Return (st\<lparr>rs_options := Some options\<rparr>))
           else if n = 4 then Return (st\<lparr>rs_playing := True, rs_options := Some []\<rparr>)
           else Exit 1))"

text \<open>
  \<^verbatim>\<open>if playing: stack[-1].option.data.play()\<close>: the line-sets played, as a list. Only a
  line-set has \<^verbatim>\<open>play\<close>.
\<close>

definition play_current :: "run_state \<Rightarrow> error + vo list" where
  "play_current st =
     (if rs_playing st then
        (if rs_stack st = [] then Inl IndexError
         else
           (case top_data (rs_stack st) of
              DVO v \<Rightarrow> Inr [v]
            | _ \<Rightarrow> Inl AttributeError))
      else Inr [])"

text \<open>
  The block \<^verbatim>\<open>if autoplaying\<close>. \<open>waits\<close> tells for each timed wait whether input
  arrived within the two seconds. The flag returned is true where the program says
  \<^verbatim>\<open>continue\<close>, and false where it goes on to the prompt.
\<close>

definition autoplay_step ::
  "run_state \<Rightarrow> bool list \<Rightarrow> (bool \<times> run_state \<times> bool list) outcome" where
  "autoplay_step st waits =
     (if \<not> rs_autoplaying st then Return (False, st, waits)
      else if rs_stack st = [] then Raise IndexError
      else
        (let top = last (rs_stack st) in
         if int (o_pos (bc_option top)) < int (length (prev_options top)) - 1 then
           (case waits of
              [] \<Rightarrow> Blocked
            | arrived # ws \<Rightarrow>
                if arrived then Return (False, st\<lparr>rs_autoplaying := False\<rparr>, ws)
                else
                  (case py_nth (prev_options top) (o_pos (bc_option top) + 1) of
                     Inl e \<Rightarrow> Raise e
                   | Inr sibling \<Rightarrow>
                       Return (True, st\<lparr>rs_stack := set_top_option (rs_stack st) sibling\<rparr>, ws)))
         else
           Return (True,
             st\<lparr>rs_autoplaying := False, rs_options := Some (prev_options top),
                rs_stack := butlast (rs_stack st), rs_playing := False\<rparr>,
             waits)))"

text \<open>
  The end of the loop body: what the answer of \<^verbatim>\<open>process_options\<close> does to the
  variables. \<open>stack\<close> is the stack as \<^verbatim>\<open>process_options\<close> left it.
\<close>

definition dispatch :: "run_state \<Rightarrow> answer \<Rightarrow> breadcrumb list \<Rightarrow> run_state" where
  "dispatch st ans stack =
     (case ans of
        ABreadcrumb b \<Rightarrow>
          st\<lparr>rs_stack := stack, rs_options := Some (prev_options b), rs_playing := False\<rparr>
      | AOption chosen \<Rightarrow> st\<lparr>rs_stack := stack, rs_options := None\<rparr>
      | AResult PLAY \<Rightarrow> st\<lparr>rs_stack := stack\<rparr>
      | AResult AUTOPLAY \<Rightarrow> st\<lparr>rs_stack := stack, rs_autoplaying := True\<rparr>
      | AResult AUTOPLAY_ALL \<Rightarrow>
          st\<lparr>rs_stack := stack, rs_autoplaying := True, rs_options := None\<rparr>)"

text \<open>
  One pass of the \<^verbatim>\<open>while True\<close> loop of \<^verbatim>\<open>App.run\<close>: the line-sets it plays, and the
  variables and the input left for the next pass.
\<close>

definition run_iter ::
  "app \<Rightarrow> run_state \<Rightarrow> string list \<times> bool list
    \<Rightarrow> vo list \<times> (run_state \<times> string list \<times> bool list) outcome" where
  "run_iter a st env =
     (case fill_options a st of
        Exit n \<Rightarrow> ([], Exit n)
      | Raise e \<Rightarrow> ([], Raise e)
      | Blocked \<Rightarrow> ([], Blocked)
      | Return st1 \<Rightarrow>
          (case play_current st1 of
             Inl e \<Rightarrow> ([], Raise e)
           | Inr played \<Rightarrow>
               (played,
                case autoplay_step st1 (snd env) of
                  Exit n \<Rightarrow> Exit n
                | Raise e \<Rightarrow> Raise e
                | Blocked \<Rightarrow> Blocked
                | Return (skip, st2, waits) \<Rightarrow>
                    if skip then Return (st2, fst env, waits)
                    else
                      (case rs_options st2 of
                         None \<Rightarrow> Raise TypeError
                       | Some options \<Rightarrow>
                           (case process_options options (rs_stack st2) (rs_playing st2)
                                   (fst env) of
                              (Return (ans, stack), rest) \<Rightarrow>
                                Return (dispatch st2 ans stack, rest, waits)
                            | (Exit n, rest) \<Rightarrow> Exit n
                            | (Raise e, rest) \<Rightarrow> Raise e
                            | (Blocked, rest) \<Rightarrow> Blocked)))))"

text \<open>The first \<open>n\<close> passes of the loop.\<close>

fun run_steps ::
  "app \<Rightarrow> nat \<Rightarrow> run_state \<Rightarrow> string list \<times> bool list
    \<Rightarrow> vo list \<times> (run_state \<times> string list \<times> bool list) outcome" where
  "run_steps a 0 st env = ([], Return (st, env))"
| "run_steps a (Suc n) st env =
     (case run_iter a st env of
        (played, Return (st', env')) \<Rightarrow>
          (case run_steps a n st' env' of (later, out) \<Rightarrow> (played @ later, out))
      | (played, out) \<Rightarrow> (played, out))"

text \<open>A small application: one entity with one bucket of two line-sets.\<close>

definition demo_gifts :: "(string \<times> vo) list" where
  "demo_gifts =
     [(''HermesGift01'', demo_vo ''HermesGift01'' ''Hermes_1''),
      (''HermesGift02'', demo_vo ''HermesGift02'' ''Hermes_2'')]"

definition demo_bank :: bank where
  "demo_bank =
     \<lparr>bank_name = ''NPC_Hermes_01'',
      bank_groups =
        [(''InteractTextLineSets'', ''Interacts'', []),
         (''RepeatableTextLineSets'', ''Repeatables'', []),
         (''GiftTextLineSets'', ''Gifts'', demo_gifts)],
      bank_combined = demo_gifts\<rparr>"

definition demo_app :: app where
  "demo_app = \<lparr>npc = [(''NPC_Hermes_01'', demo_bank)], enemy = [], loot = []\<rparr>"

text \<open>The options of the four menus on the way to the first line-set.\<close>

definition demo_entities :: "opt list" where
  "demo_entities = [Option ''NPC_Hermes_01'' (DBank demo_bank) 0]"

definition demo_buckets :: "opt list" where
  "demo_buckets = [Option ''Gifts'' (DCategory demo_gifts) 0]"

definition demo_linesets :: "opt list" where
  "demo_linesets =
     [\<lparr>o_label = ''HermesGift01'', o_data = DVO (demo_vo ''HermesGift01'' ''Hermes_1''),
       o_pos = 0,
       o_breadcrumb_label = ''([dim cyan]1[/dim cyan]/[dim cyan]2[/dim cyan]) HermesGift01''\<rparr>,
      \<lparr>o_label = ''HermesGift02'', o_data = DVO (demo_vo ''HermesGift02'' ''Hermes_2''),
       o_pos = 1,
       o_breadcrumb_label = ''([dim cyan]2[/dim cyan]/[dim cyan]2[/dim cyan]) HermesGift02''\<rparr>]"

text \<open>The stack at the list of line-sets, and the stack on the line-set at a position.\<close>

definition demo_stack3 :: "breadcrumb list" where
  "demo_stack3 =
     [\<lparr>bc_option = Option ''NPCs'' (DRegistry (npc demo_app)) 0,
       prev_options = category_options demo_app\<rparr>,
      \<lparr>bc_option = Option ''NPC_Hermes_01'' (DBank demo_bank) 0, prev_options = demo_entities\<rparr>,
      \<lparr>bc_option = Option ''Gifts'' (DCategory demo_gifts) 0, prev_options = demo_buckets\<rparr>]"

definition demo_stack4 :: "nat \<Rightarrow> breadcrumb list" where
  "demo_stack4 i = demo_stack3 @ [\<lparr>bc_option = demo_linesets ! i, prev_options = demo_linesets\<rparr>]"

text \<open>The variables of the loop after the given lines, when it is still running.\<close>

definition state_after :: "app \<Rightarrow> nat \<Rightarrow> string list \<Rightarrow> bool list \<Rightarrow> run_state option" where
  "state_after a n lines waits =
     (case snd (run_steps a n run_init (lines, waits)) of
        Return (st, env) \<Rightarrow> Some st
      | _ \<Rightarrow> None)"

text \<open>
  The kind of data that the option chosen at each depth carries in a session: a registry
  at depth 1, a bank at depth 2, a bucket at depth 3 and a line-set at depth 4.
\<close>

definition fits :: "nat \<Rightarrow> odata \<Rightarrow> bool" where
  "fits depth d =
     (case d of
        DRegistry r \<Rightarrow> depth = 1
      | DBank b \<Rightarrow> depth = 2
      | DCategory c \<Rightarrow> depth = 3
      | DVO v \<Rightarrow> depth = 4)"

section \<open>Properties of cues\<close>

lemma str_nat_small:
  "str_nat 0 = ''0''" "str_nat (Suc 0) = ''1''" "str_nat (Suc (Suc 0)) = ''2''"
  by code_simp+

lemma primary_cue_dict:
  "primary_cue (JDict kvs) =
     (case map_of kvs ''Cue'' of
        None \<Rightarrow> Inr None
      | Some v \<Rightarrow> if v = JStr '''' then Inr (Some '''') else match_value v)"
  by (auto simp: primary_cue_def split: option.splits)

lemma match_value_not_NotACue: "match_value v \<noteq> Inl NotACueException"
  by (cases v) auto

lemma match_value_not_str: "\<forall>s. v \<noteq> JStr s \<Longrightarrow> match_value v = Inl TypeError"
  by (cases v) auto

lemma int_float_not_NotACue: "int_float fl n \<noteq> Inl NotACueException"
  by (simp add: int_float_def)

lemma py_float_not_NotACue: "py_float fl v \<noteq> Inl NotACueException"
  by (cases v) (auto simp: int_float_not_NotACue split: option.splits)

lemma pre_line_wait_not_NotACue: "pre_line_wait fl kvs \<noteq> Inl NotACueException"
  using py_float_not_NotACue
  by (auto simp: pre_line_wait_def split: option.splits sum.splits)

lemma number_float_not_NotACue: "number_float fl x \<noteq> Inl NotACueException"
  by (cases x) (auto simp: int_float_not_NotACue)

lemma py_add_not_NotACue: "py_add fl x y \<noteq> Inl NotACueException"
  using number_float_not_NotACue
  by (cases "(fl, x, y)" rule: py_add.cases) (auto split: sum.splits)

lemma from_data_fields_not_NotACue:
  "from_data_fields fl kvs c d ch \<noteq> Inl NotACueException"
  using pre_line_wait_not_NotACue match_value_not_NotACue py_add_not_NotACue
  by (auto simp: from_data_fields_def Let_def split: sum.splits option.splits)

lemma primary_cue_not_NotACue: "primary_cue e \<noteq> Inl NotACueException"
  using match_value_not_NotACue
  by (cases e) (auto simp: primary_cue_def split: option.splits sum.splits bool.splits)

lemma from_data_NotACue:
  "(from_data fl e d ch = Inl NotACueException) = (primary_cue e = Inr None)"
  using primary_cue_not_NotACue [of e] from_data_fields_not_NotACue [of fl _ _ d ch]
  by (auto simp: from_data_def split: sum.splits option.splits json.splits)

lemma from_data_fields_ok:
  "optional_fields_ok fl kvs d \<Longrightarrow> \<exists>c'. from_data_fields fl kvs c d ch = Inr c' \<and> cue c' = c"
  by (auto simp: optional_fields_ok_def from_data_fields_def Let_def
      split: sum.splits option.splits json.splits)

lemma from_data_fields_id: "from_data_fields fl kvs c d ch = Inr c' \<Longrightarrow> cue c' = c"
  by (auto simp: from_data_fields_def Let_def split: sum.splits option.splits)

lemma from_data_Inr_id: "from_data fl e d ch = Inr c \<Longrightarrow> primary_cue e = Inr (Some (cue c))"
  by (auto simp: from_data_def split: sum.splits option.splits json.splits
      dest: from_data_fields_id)

text \<open>
  Claim C3, as the code has it. For a cue map whose field \<^verbatim>\<open>Cue\<close> is a string \<open>s\<close> that
  is empty or matches the audio reference pattern, \<^verbatim>\<open>Cue.from_data\<close> never raises
  \<^verbatim>\<open>NotACueException\<close>; when in addition the optional fields are well typed and the
  delay can be computed, it returns a cue whose identifier is the empty string for the
  empty \<open>s\<close> and the matched group otherwise. For a cue map whose field \<^verbatim>\<open>Cue\<close> is
  absent, or is a non-empty string that does not match, it always raises
  \<^verbatim>\<open>NotACueException\<close>. A field \<^verbatim>\<open>Cue\<close> that is not a string raises \<^verbatim>\<open>TypeError\<close>.
\<close>

theorem from_data_NotACue_iff:
  "(map_of kvs ''Cue'' = Some (JStr s) \<and> (s = '''' \<or> vo_re_match s \<noteq> None)
      \<longrightarrow> from_data fl (JDict kvs) d ch \<noteq> Inl NotACueException) \<and>
   (map_of kvs ''Cue'' = Some (JStr s) \<and> (s = '''' \<or> vo_re_match s \<noteq> None) \<and>
    optional_fields_ok fl kvs d
      \<longrightarrow> (\<exists>c. from_data fl (JDict kvs) d ch = Inr c \<and>
                cue c = (if s = '''' then '''' else the (vo_re_match s)))) \<and>
   (map_of kvs ''Cue'' = None \<or>
    (map_of kvs ''Cue'' = Some (JStr s) \<and> s \<noteq> '''' \<and> vo_re_match s = None)
      \<longrightarrow> from_data fl (JDict kvs) d ch = Inl NotACueException) \<and>
   (map_of kvs ''Cue'' = Some v \<and> (\<forall>s'. v \<noteq> JStr s')
      \<longrightarrow> from_data fl (JDict kvs) d ch = Inl TypeError)"
  using from_data_fields_not_NotACue [of fl kvs _ d ch] from_data_fields_ok [of fl kvs d _ ch]
    match_value_not_str [of v]
  by (auto simp: from_data_def primary_cue_dict)

theorem from_data_NotACue_iff_witness:
  "(\<exists>c. from_data exact_arith (JDict [(''Cue'', JStr '''')]) (PyInt 0) JNull = Inr c \<and>
        cue c = '''') \<and>
   (\<exists>c. from_data exact_arith
          (JDict [(''Cue'', JStr ''/VO/Greet''), (''PreLineWait'', JInt 1)]) (PyInt 0) JNull =
          Inr c \<and>
        cue c = ''Greet'') \<and>
   from_data exact_arith (JDict [(''Text'', JStr ''Hello'')]) (PyInt 0) JNull =
     Inl NotACueException \<and>
   from_data exact_arith (JDict [(''Cue'', JStr ''Greet'')]) (PyInt 0) JNull =
     Inl NotACueException \<and>
   from_data exact_arith (JDict [(''Cue'', JNull)]) (PyInt 0) JNull = Inl TypeError"
proof -
  have greet: "vo_re_match ''/VO/Greet'' = Some ''Greet''"
    by code_simp
  have plain: "vo_re_match ''Greet'' = None"
    by code_simp
  have "\<exists>c. from_data exact_arith (JDict [(''Cue'', JStr '''')]) (PyInt 0) JNull = Inr c \<and>
      cue c = ''''"
    using from_data_NotACue_iff [of "[(''Cue'', JStr '''')]" "''''" exact_arith "PyInt 0" JNull]
    by (simp add: optional_fields_ok_def pre_line_wait_def)
  moreover have "\<exists>c. from_data exact_arith
          (JDict [(''Cue'', JStr ''/VO/Greet''), (''PreLineWait'', JInt 1)]) (PyInt 0) JNull =
          Inr c \<and>
        cue c = ''Greet''"
    using from_data_NotACue_iff [of "[(''Cue'', JStr ''/VO/Greet''), (''PreLineWait'', JInt 1)]"
        "''/VO/Greet''" exact_arith "PyInt 0" JNull]
    by (simp add: optional_fields_ok_def pre_line_wait_def int_float_def greet)
  moreover have
    "from_data exact_arith (JDict [(''Text'', JStr ''Hello'')]) (PyInt 0) JNull =
       Inl NotACueException"
    using from_data_NotACue_iff [of "[(''Text'', JStr ''Hello'')]" "''''" exact_arith "PyInt 0"
        JNull]
    by simp
  moreover have
    "from_data exact_arith (JDict [(''Cue'', JStr ''Greet'')]) (PyInt 0) JNull =
       Inl NotACueException"
    using from_data_NotACue_iff [of "[(''Cue'', JStr ''Greet'')]" "''Greet''" exact_arith
        "PyInt 0" JNull]
    by (simp add: plain)
  moreover have
    "from_data exact_arith (JDict [(''Cue'', JNull)]) (PyInt 0) JNull = Inl TypeError"
    using from_data_NotACue_iff [of "[(''Cue'', JNull)]" "''''" exact_arith "PyInt 0" JNull
        JNull]
    by simp
  ultimately show ?thesis
    by blast
qed

text \<open>
  Claim C3, as stated, fails twice. The number 5 in the field \<^verbatim>\<open>Cue\<close> is present, not
  empty and matches no pattern, and \<^verbatim>\<open>Cue.from_data\<close> raises \<^verbatim>\<open>TypeError\<close>, not
  \<^verbatim>\<open>NotACueException\<close>. And with the empty string in \<^verbatim>\<open>Cue\<close> and a
  \<^verbatim>\<open>PreLineWait\<close> that is no number, it raises \<^verbatim>\<open>ValueError\<close> and returns no cue.
\<close>

theorem from_data_other_errors:
  "from_data exact_arith (JDict [(''Cue'', JInt 5)]) (PyInt 0) JNull = Inl TypeError \<and>
   from_data exact_arith (JDict [(''Cue'', JStr ''''), (''PreLineWait'', JStr ''abc'')])
     (PyInt 0) JNull = Inl ValueError"
  by (simp add: from_data_def primary_cue_dict from_data_fields_def pre_line_wait_def
      exact_arith_def)

lemma fadd_zero_left: "fadd fl (Fin 0) y = y"
  by (cases y) auto

lemma fadd_zero_right: "fadd fl x (Fin 0) = x"
  by (cases x) auto

lemma int_float_zero: "int_float fl 0 = Inr (Fin 0)"
  by (simp add: int_float_def)

lemma py_add_zero_left: "py_add fl (PyInt 0) y = Inr y"
  by (cases y) (simp_all add: int_float_zero fadd_zero_left)

lemma py_add_zero_right: "py_add fl x (PyInt 0) = Inr x"
  by (cases x) (simp_all add: int_float_zero fadd_zero_right)

lemma round_to_double_nonneg: "0 \<le> s \<Longrightarrow> nonneg (PyFloat (round_to_double fl s))"
  by (auto simp: round_to_double_def split: option.splits)

lemma int_float_nonneg: "int_float fl n = Inr u \<Longrightarrow> 0 \<le> n \<Longrightarrow> nonneg (PyFloat u)"
  by (auto simp: int_float_def round_to_double_nonneg split: if_splits)

lemma number_float_nonneg: "number_float fl x = Inr u \<Longrightarrow> nonneg x \<Longrightarrow> nonneg (PyFloat u)"
  by (cases x) (auto dest: int_float_nonneg)

lemma fadd_nonneg:
  "nonneg (PyFloat u) \<Longrightarrow> nonneg (PyFloat v) \<Longrightarrow> nonneg (PyFloat (fadd fl u v))"
  by (cases u; cases v) (auto simp: round_to_double_nonneg)

lemma py_add_nonneg: "py_add fl x y = Inr s \<Longrightarrow> nonneg x \<Longrightarrow> nonneg y \<Longrightarrow> nonneg s"
  by (cases "(fl, x, y)" rule: py_add.cases)
    (auto split: sum.splits dest!: number_float_nonneg intro: fadd_nonneg)

lemma from_data_fields_delay:
  "from_data_fields fl kvs c0 d ch = Inr c \<Longrightarrow>
   \<exists>w. pre_line_wait fl kvs = Inr w \<and> py_add fl w d = Inr (delay c)"
  by (auto simp: from_data_fields_def Let_def split: sum.splits option.splits)

text \<open>
  Claim C6, as the code has it. The delay of the cue that \<^verbatim>\<open>Cue.from_data\<close> returns is
  Python's sum of the float of \<^verbatim>\<open>PreLineWait\<close> (the int 0 when the key is absent) and
  the external delay, and no sign is checked. It is the external delay when the key is
  absent, it is the float of \<^verbatim>\<open>PreLineWait\<close> when the external delay is the int 0, and it
  is non-negative when both summands are.
\<close>

theorem from_data_delay:
  assumes "from_data fl data external_delay ch = Inr c"
  shows "\<exists>kvs w. data = JDict kvs \<and> pre_line_wait fl kvs = Inr w \<and>
           py_add fl w external_delay = Inr (delay c) \<and>
           (map_of kvs ''PreLineWait'' = None \<longrightarrow> delay c = external_delay) \<and>
           (external_delay = PyInt 0 \<longrightarrow> delay c = w) \<and>
           (nonneg w \<and> nonneg external_delay \<longrightarrow> nonneg (delay c))"
proof -
  from assms obtain kvs c0 where kvs: "data = JDict kvs"
    and fields: "from_data_fields fl kvs c0 external_delay ch = Inr c"
    by (auto simp: from_data_def split: sum.splits option.splits json.splits)
  from from_data_fields_delay [OF fields] obtain w where w: "pre_line_wait fl kvs = Inr w"
    and add: "py_add fl w external_delay = Inr (delay c)"
    by blast
  have absent: "delay c = external_delay" if "map_of kvs ''PreLineWait'' = None"
  proof -
    from that w have "w = PyInt 0"
      by (simp add: pre_line_wait_def)
    with add show ?thesis
      by (simp add: py_add_zero_left)
  qed
  have zero: "delay c = w" if "external_delay = PyInt 0"
    using that add by (simp add: py_add_zero_right)
  have sign: "nonneg (delay c)" if "nonneg w \<and> nonneg external_delay"
  proof -
    from that have "nonneg w" and "nonneg external_delay"
      by simp_all
    with add show ?thesis
      by (rule py_add_nonneg)
  qed
  show ?thesis
  proof (intro exI conjI impI)
    show "data = JDict kvs"
      by (rule kvs)
    show "pre_line_wait fl kvs = Inr w"
      by (rule w)
    show "py_add fl w external_delay = Inr (delay c)"
      by (rule add)
    show "delay c = external_delay" if "map_of kvs ''PreLineWait'' = None"
      using that by (rule absent)
    show "delay c = w" if "external_delay = PyInt 0"
      using that by (rule zero)
    show "nonneg (delay c)" if "nonneg w \<and> nonneg external_delay"
      using that by (rule sign)
  qed
qed

theorem from_data_delay_witness:
  "from_data exact_arith (JDict [(''Cue'', JStr ''''), (''PreLineWait'', JInt 3)]) (PyInt 0)
     JNull =
     Inr \<lparr>cue = '''', cue_text = JNull, delay = PyFloat (Fin 3), start_sound = None,
          choice = JNull\<rparr> \<and>
   pre_line_wait exact_arith [(''Cue'', JStr ''''), (''PreLineWait'', JInt 3)] =
     Inr (PyFloat (Fin 3)) \<and>
   py_add exact_arith (PyFloat (Fin 3)) (PyInt 0) = Inr (PyFloat (Fin 3)) \<and>
   nonneg (PyFloat (Fin 3))"
proof -
  let ?c = "\<lparr>cue = '''', cue_text = JNull, delay = PyFloat (Fin 3), start_sound = None,
          choice = JNull\<rparr>"
  have run: "from_data exact_arith
      (JDict [(''Cue'', JStr ''''), (''PreLineWait'', JInt 3)]) (PyInt 0) JNull = Inr ?c"
    by (simp add: from_data_def primary_cue_dict from_data_fields_def pre_line_wait_def
        int_float_def)
  from from_data_delay [OF run] obtain kvs w where
    kvs: "JDict [(''Cue'', JStr ''''), (''PreLineWait'', JInt 3)] = JDict kvs"
    and w: "pre_line_wait exact_arith kvs = Inr w"
    and add: "py_add exact_arith w (PyInt 0) = Inr (delay ?c)"
    and zero: "PyInt 0 = PyInt 0 \<longrightarrow> delay ?c = w"
    and sign: "nonneg w \<and> nonneg (PyInt 0) \<longrightarrow> nonneg (delay ?c)"
    by blast
  from zero have weq: "w = PyFloat (Fin 3)"
    by simp
  from kvs have "kvs = [(''Cue'', JStr ''''), (''PreLineWait'', JInt 3)]"
    by simp
  with run w add sign weq show ?thesis
    by simp
qed

text \<open>
  Claim C6, as stated, fails: a negative \<^verbatim>\<open>PreLineWait\<close> with the external delay 0,
  which is not negative, gives a cue with a negative delay.
\<close>

theorem from_data_negative_delay:
  "from_data exact_arith (JDict [(''Cue'', JStr ''''), (''PreLineWait'', JInt (- 1))]) (PyInt 0)
     JNull =
     Inr \<lparr>cue = '''', cue_text = JNull, delay = PyFloat (Fin (- 1)), start_sound = None,
          choice = JNull\<rparr> \<and>
   nonneg (PyInt 0) \<and> \<not> nonneg (PyFloat (Fin (- 1)))"
  by (simp add: from_data_def primary_cue_dict from_data_fields_def pre_line_wait_def
      int_float_def)

section \<open>Properties of line-sets\<close>

lemma VO_finish_Inr:
  "VO_finish cs = Inr cues \<Longrightarrow> cues \<noteq> [] \<and> delay (cues ! 0) = PyInt 0"
  by (auto simp: VO_finish_def split: if_splits)

lemma VO_init_finish:
  "VO_init fl data = Inr cues \<Longrightarrow> \<exists>cs. VO_finish cs = Inr cues"
  by (subst (asm) VO_init.simps) (auto split: json.splits sum.splits prod.splits)

lemma VO_init_Inr:
  "VO_init fl data = Inr cues \<Longrightarrow> cues \<noteq> [] \<and> delay (cues ! 0) = PyInt 0"
  using VO_init_finish VO_finish_Inr by blast

text \<open>
  Claim C1. Every line-set that \<^verbatim>\<open>VO.__init__\<close> builds has a first cue, and the delay
  of that cue is 0, whatever \<^verbatim>\<open>PreLineWait\<close> values the data holds.
\<close>

theorem VO_first_delay_zero:
  "VO_init fl data = Inr cues \<Longrightarrow> cues \<noteq> [] \<and> delay (cues ! 0) = PyInt 0"
  by (rule VO_init_Inr)

theorem VO_first_delay_zero_witness:
  "VO_init exact_arith
     (JDict [(''PreLineWait'', JInt 5),
             (''0'', JDict [(''Cue'', JStr ''/VO/Hello''), (''PreLineWait'', JInt 3)])]) =
     Inr [\<lparr>cue = ''Hello'', cue_text = JNull, delay = PyInt 0, start_sound = None,
           choice = JNull\<rparr>] \<and>
   delay ([\<lparr>cue = ''Hello'', cue_text = JNull, delay = PyInt 0, start_sound = None,
            choice = JNull\<rparr>] ! 0) = PyInt 0"
proof -
  have built: "VO_init exact_arith
     (JDict [(''PreLineWait'', JInt 5),
             (''0'', JDict [(''Cue'', JStr ''/VO/Hello''), (''PreLineWait'', JInt 3)])]) =
     Inr [\<lparr>cue = ''Hello'', cue_text = JNull, delay = PyInt 0, start_sound = None,
           choice = JNull\<rparr>]"
    by code_simp
  show ?thesis
    using built VO_first_delay_zero [OF built] by simp
qed

lemma VO_indexed_no_cues:
  "\<forall>i \<in> set nums. entry_not_a_cue fl kvs i \<Longrightarrow> VO_indexed fl kvs ch nums cues d = Inr (cues, d)"
proof (induction nums)
  case Nil
  then show ?case by simp
next
  case (Cons num nums)
  then have rest: "VO_indexed fl kvs ch nums cues d = Inr (cues, d)"
    by simp
  show ?case
  proof (cases "map_of kvs (str_nat num)")
    case None
    then show ?thesis using rest by simp
  next
    case (Some entry)
    with Cons.prems have ch: "choices_of entry = None"
      and "from_data fl entry (PyInt 0) JNull = Inl NotACueException"
      by (simp_all add: entry_not_a_cue_def)
    then have "from_data fl entry d ch = Inl NotACueException"
      by (simp add: from_data_NotACue)
    with Some ch rest show ?thesis by simp
  qed
qed

text \<open>
  Claim C2, as the code has it. The empty list builds no line-set: \<^verbatim>\<open>VO.__init__\<close>
  raises \<^verbatim>\<open>NoCuesException\<close>. So does a dict whose \<^verbatim>\<open>PreLineWait\<close>, if present,
  converts to a float, which has no \<^verbatim>\<open>EndCue\<close> and no \<^verbatim>\<open>EndVoiceLines\<close>, and in which
  every entry at an index below the number of keys holds no list of choices and makes
  \<^verbatim>\<open>Cue.from_data\<close> raise \<^verbatim>\<open>NotACueException\<close>. And no input at all gives a line-set
  with zero cues.
\<close>

theorem VO_no_cues:
  "VO_init fl (JList []) = Inl NoCuesException \<and>
   (pre_line_wait fl kvs = Inr d0 \<and> (\<forall>i < length kvs. entry_not_a_cue fl kvs i) \<and>
      map_of kvs ''EndCue'' = None \<and> map_of kvs ''EndVoiceLines'' = None
      \<longrightarrow> VO_init fl (JDict kvs) = Inl NoCuesException) \<and>
   VO_init fl data \<noteq> Inr []"
proof (intro conjI impI)
  show "VO_init fl (JList []) = Inl NoCuesException"
    by (simp add: VO_init.simps VO_finish_def)
next
  assume h: "pre_line_wait fl kvs = Inr d0 \<and> (\<forall>i < length kvs. entry_not_a_cue fl kvs i) \<and>
      map_of kvs ''EndCue'' = None \<and> map_of kvs ''EndVoiceLines'' = None"
  then have "VO_indexed fl kvs (choice_text kvs) [0..<length kvs] [] d0 = Inr ([], d0)"
    by (intro VO_indexed_no_cues) simp
  with h show "VO_init fl (JDict kvs) = Inl NoCuesException"
    by (simp add: VO_init.simps end_cue_def VO_finish_def)
next
  show "VO_init fl data \<noteq> Inr []"
    using VO_init_Inr [of fl data "[]"] by blast
qed

theorem VO_no_cues_witness:
  "pre_line_wait exact_arith
     [(''PreLineWait'', JInt 1), (''0'', JDict [(''Text'', JStr ''Hello'')])] =
     Inr (PyFloat (Fin 1)) \<and>
   list_all (entry_not_a_cue exact_arith
     [(''PreLineWait'', JInt 1), (''0'', JDict [(''Text'', JStr ''Hello'')])]) [0, 1] \<and>
   VO_init exact_arith
     (JDict [(''PreLineWait'', JInt 1), (''0'', JDict [(''Text'', JStr ''Hello'')])]) =
     Inl NoCuesException"
proof -
  let ?kvs = "[(''PreLineWait'', JInt 1), (''0'', JDict [(''Text'', JStr ''Hello'')])]"
  have wait: "pre_line_wait exact_arith ?kvs = Inr (PyFloat (Fin 1))"
    by (simp add: pre_line_wait_def int_float_def)
  have e0: "entry_not_a_cue exact_arith ?kvs 0"
    by (simp add: entry_not_a_cue_def str_nat_small from_data_def primary_cue_dict)
  have e1: "entry_not_a_cue exact_arith ?kvs (Suc 0)"
    by (simp add: entry_not_a_cue_def str_nat_small)
  have all: "\<forall>i < length ?kvs. entry_not_a_cue exact_arith ?kvs i"
    using e0 e1 by (simp add: less_Suc_eq)
  show ?thesis
    using wait e0 e1 all VO_no_cues [of exact_arith ?kvs "PyFloat (Fin 1)" JNull] by simp
qed

text \<open>
  Claim C2, as stated, fails twice. An indexed entry that holds a list of choices is not
  handed to \<^verbatim>\<open>Cue.from_data\<close>, which would raise \<^verbatim>\<open>NotACueException\<close> on it, but built
  from its choices: the dict with this one entry, no \<^verbatim>\<open>EndCue\<close> and no
  \<^verbatim>\<open>EndVoiceLines\<close> gives a line-set of one cue. And a dict with no indexed entry whose
  \<^verbatim>\<open>PreLineWait\<close> is no number raises \<^verbatim>\<open>ValueError\<close>, not \<^verbatim>\<open>NoCuesException\<close>.
\<close>

theorem VO_choices_entry_builds:
  "from_data exact_arith (JDict [(''Choices'', JList [JList [JDict [(''Cue'', JStr ''/VO/A'')]]])])
     (PyInt 0) JNull = Inl NotACueException \<and>
   VO_init exact_arith
     (JDict [(''0'', JDict [(''Choices'', JList [JList [JDict [(''Cue'', JStr ''/VO/A'')]]])])]) =
     Inr [\<lparr>cue = ''A'', cue_text = JNull, delay = PyInt 0, start_sound = None,
           choice = JNull\<rparr>] \<and>
   VO_init exact_arith (JDict [(''PreLineWait'', JStr ''abc'')]) = Inl ValueError"
  by code_simp


lemma splice_append: "splice cues r = Inr cues' \<Longrightarrow> \<exists>ext. cues' = cues @ ext"
  by (auto simp: splice_def split: sum.splits if_splits)

lemma VO_sub_append: "VO_sub fl xs cues = Inr cues' \<Longrightarrow> \<exists>ext. cues' = cues @ ext"
proof (induction xs arbitrary: cues)
  case Nil
  then show ?case by simp
next
  case (Cons x xs)
  from Cons.prems obtain cues1 where s: "splice cues (VO_init fl x) = Inr cues1"
    and r: "VO_sub fl xs cues1 = Inr cues'"
    by (auto split: sum.splits)
  from splice_append [OF s] Cons.IH [OF r] show ?case
    by auto
qed

lemma end_cue_append: "end_cue fl kvs ch cues = Inr cues' \<Longrightarrow> \<exists>ext. cues' = cues @ ext"
  by (auto simp: end_cue_def split: option.splits sum.splits if_splits)

lemma VO_finish_ids: "VO_finish cs = Inr cues \<Longrightarrow> map cue cues = map cue cs"
  by (cases cs) (auto simp: VO_finish_def split: if_splits)

lemma VO_indexed_ids:
  "VO_indexed fl kvs ch nums cues d = Inr (cues', d') \<Longrightarrow>
   \<exists>ext. cues' = cues @ ext \<and> subseq (indexed_ids kvs nums) (map cue ext)"
proof (induction nums arbitrary: cues d)
  case Nil
  then show ?case by simp
next
  case (Cons num nums)
  show ?case
  proof (cases "map_of kvs (str_nat num)")
    case None
    with Cons.prems have "VO_indexed fl kvs ch nums cues d = Inr (cues', d')"
      by simp
    from Cons.IH [OF this] None show ?thesis
      by simp
  next
    case (Some entry)
    show ?thesis
    proof (cases "choices_of entry")
      case choices: (Some xs)
      with Some Cons.prems obtain cues1 where sub: "VO_sub fl xs cues = Inr cues1"
        and rest: "VO_indexed fl kvs ch nums cues1 d = Inr (cues', d')"
        by (auto split: sum.splits)
      from VO_sub_append [OF sub] obtain e1 where e1: "cues1 = cues @ e1"
        by blast
      from Cons.IH [OF rest] obtain e2 where e2: "cues' = cues1 @ e2"
        and emb: "subseq (indexed_ids kvs nums) (map cue e2)"
        by blast
      from emb have "subseq (indexed_ids kvs nums) (map cue (e1 @ e2))"
        by (simp add: subseq_drop_many)
      with e1 e2 Some choices show ?thesis
        by (intro exI [of _ "e1 @ e2"]) simp
    next
      case plain: None
      show ?thesis
      proof (cases "from_data fl entry d ch")
        case (Inl e)
        with Some plain Cons.prems have ex: "e = NotACueException"
          and rest: "VO_indexed fl kvs ch nums cues d = Inr (cues', d')"
          by (auto split: if_splits)
        from Inl ex have "primary_cue entry = Inr None"
          by (simp add: from_data_NotACue)
        with Cons.IH [OF rest] Some plain show ?thesis
          by simp
      next
        case (Inr c)
        with Some plain Cons.prems
        have rest: "VO_indexed fl kvs ch nums (cues @ [c]) (PyInt 0) = Inr (cues', d')"
          by simp
        from Cons.IH [OF rest] obtain e2 where e2: "cues' = (cues @ [c]) @ e2"
          and emb: "subseq (indexed_ids kvs nums) (map cue e2)"
          by blast
        from from_data_Inr_id [OF Inr] have id: "primary_cue entry = Inr (Some (cue c))" .
        from emb have "subseq (cue c # indexed_ids kvs nums) (map cue (c # e2))"
          by simp
        with e2 Some plain id show ?thesis
          by (intro exI [of _ "c # e2"]) simp
      qed
    qed
  qed
qed

lemma VO_init_ids:
  assumes "VO_init fl (JDict kvs) = Inr cues"
  shows "subseq (indexed_ids kvs [0..<length kvs]) (map cue cues)"
proof -
  from assms obtain d0 cues1 d1 cues2 cues3 where
    idx: "VO_indexed fl kvs (choice_text kvs) [0..<length kvs] [] d0 = Inr (cues1, d1)"
    and ec: "end_cue fl kvs (choice_text kvs) cues1 = Inr cues2"
    and evl: "(case map_of kvs ''EndVoiceLines'' of
                 Some (JDict ekvs) \<Rightarrow> splice cues2 (VO_init fl (JDict ekvs))
               | Some (JList xs) \<Rightarrow> VO_sub fl xs cues2
               | _ \<Rightarrow> Inr cues2) = Inr cues3"
    and fin: "VO_finish cues3 = Inr cues"
    by (subst (asm) VO_init.simps) (auto split: sum.splits prod.splits)
  from VO_indexed_ids [OF idx] have emb: "subseq (indexed_ids kvs [0..<length kvs]) (map cue cues1)"
    by simp
  from end_cue_append [OF ec] obtain e2 where e2: "cues2 = cues1 @ e2"
    by blast
  from evl obtain e3 where e3: "cues3 = cues2 @ e3"
    by (auto split: option.splits json.splits dest: splice_append VO_sub_append)
  from emb have "subseq (indexed_ids kvs [0..<length kvs]) (map cue (cues1 @ e2 @ e3))"
    by (simp add: subseq_rev_drop_many)
  with e2 e3 VO_finish_ids [OF fin] show ?thesis
    by simp
qed

lemma VO_indexed_agree:
  "\<forall>i \<in> set nums. map_of kvs (str_nat i) = map_of kvs' (str_nat i) \<Longrightarrow>
   VO_indexed fl kvs ch nums cues d = VO_indexed fl kvs' ch nums cues d"
  by (induction nums arbitrary: cues d) (auto split: option.splits sum.splits)

text \<open>
  Claim C5, as the code has it. The loop of \<^verbatim>\<open>VO.__init__\<close> tries the keys
  \<^verbatim>\<open>str(0)\<close>, \<^verbatim>\<open>str(1)\<close>, ... in ascending order up to the number of keys of the
  dict (all its keys, numeric or not) and passes over an index whose key is absent: in
  every line-set built, the entries below that number that are parsed as cues give their
  cues, in the order of their indices, whether lower indices are absent or not. And the
  line-set built depends only on the number of keys, on the entries at the indices below
  that number and on the named fields: the entries at other keys, those at higher indices
  among them, contribute nothing.
\<close>

theorem VO_indexed_range:
  "(VO_init fl (JDict kvs) = Inr cues
      \<longrightarrow> subseq (indexed_ids kvs [0..<length kvs]) (map cue cues)) \<and>
   (length kvs' = length kvs \<and>
    (\<forall>i < length kvs. map_of kvs' (str_nat i) = map_of kvs (str_nat i)) \<and>
    (\<forall>k \<in> set line_set_fields. map_of kvs' k = map_of kvs k)
    \<longrightarrow> VO_init fl (JDict kvs') = VO_init fl (JDict kvs))"
proof (intro conjI impI)
  assume "VO_init fl (JDict kvs) = Inr cues"
  then show "subseq (indexed_ids kvs [0..<length kvs]) (map cue cues)"
    by (rule VO_init_ids)
next
  assume h: "length kvs' = length kvs \<and>
    (\<forall>i < length kvs. map_of kvs' (str_nat i) = map_of kvs (str_nat i)) \<and>
    (\<forall>k \<in> set line_set_fields. map_of kvs' k = map_of kvs k)"
  then have "VO_indexed fl kvs' ch' [0..<length kvs] [] d' =
      VO_indexed fl kvs ch' [0..<length kvs] [] d'" for ch' d'
    by (intro VO_indexed_agree) simp
  then have idx: "VO_indexed fl kvs' ch' [0..<length kvs] [] =
      VO_indexed fl kvs ch' [0..<length kvs] []" for ch'
    by (rule ext)
  from h have len: "length kvs' = length kvs"
    by simp
  from h have keys: "map_of kvs' ''PreLineWait'' = map_of kvs ''PreLineWait''"
    "map_of kvs' ''ChoiceText'' = map_of kvs ''ChoiceText''"
    "map_of kvs' ''EndCue'' = map_of kvs ''EndCue''"
    "map_of kvs' ''EndWait'' = map_of kvs ''EndWait''"
    and evl: "map_of kvs' ''EndVoiceLines'' = map_of kvs ''EndVoiceLines''"
    by (simp_all add: line_set_fields_def)
  have plw: "pre_line_wait fl kvs' = pre_line_wait fl kvs"
    unfolding pre_line_wait_def keys ..
  have ct: "choice_text kvs' = choice_text kvs"
    unfolding choice_text_def keys ..
  have ec: "end_cue fl kvs' = end_cue fl kvs"
    unfolding end_cue_def keys ..
  show "VO_init fl (JDict kvs') = VO_init fl (JDict kvs)"
    unfolding VO_init.simps [of fl "JDict kvs'"] VO_init.simps [of fl "JDict kvs"]
      json.case len plw ct ec evl idx ..
qed

theorem VO_indexed_range_witness:
  "VO_init exact_arith
     (JDict [(''0'', JDict [(''Cue'', JStr ''/VO/A'')]), (''2'', JDict [(''Cue'', JStr ''/VO/B'')]),
             (''7'', JDict [(''Cue'', JStr ''/VO/D'')])]) =
     Inr [\<lparr>cue = ''A'', cue_text = JNull, delay = PyInt 0, start_sound = None, choice = JNull\<rparr>,
          \<lparr>cue = ''B'', cue_text = JNull, delay = PyInt 0, start_sound = None,
           choice = JNull\<rparr>] \<and>
   subseq
     (indexed_ids
        [(''0'', JDict [(''Cue'', JStr ''/VO/A'')]), (''2'', JDict [(''Cue'', JStr ''/VO/B'')]),
         (''7'', JDict [(''Cue'', JStr ''/VO/D'')])] [0, 1, 2])
     [''A'', ''B''] \<and>
   VO_init exact_arith
     (JDict [(''0'', JDict [(''Cue'', JStr ''/VO/A'')]), (''2'', JDict [(''Cue'', JStr ''/VO/B'')]),
             (''7'', JDict [(''Cue'', JStr ''/VO/C'')])]) =
   VO_init exact_arith
     (JDict [(''0'', JDict [(''Cue'', JStr ''/VO/A'')]), (''2'', JDict [(''Cue'', JStr ''/VO/B'')]),
             (''7'', JDict [(''Cue'', JStr ''/VO/D'')])])"
proof -
  let ?kvs = "[(''0'', JDict [(''Cue'', JStr ''/VO/A'')]), (''2'', JDict [(''Cue'', JStr ''/VO/B'')]),
             (''7'', JDict [(''Cue'', JStr ''/VO/D'')])]"
  let ?kvs' = "[(''0'', JDict [(''Cue'', JStr ''/VO/A'')]), (''2'', JDict [(''Cue'', JStr ''/VO/B'')]),
             (''7'', JDict [(''Cue'', JStr ''/VO/C'')])]"
  let ?cues = "[\<lparr>cue = ''A'', cue_text = JNull, delay = PyInt 0, start_sound = None,
                 choice = JNull\<rparr>,
                \<lparr>cue = ''B'', cue_text = JNull, delay = PyInt 0, start_sound = None,
                 choice = JNull\<rparr>]"
  have built: "VO_init exact_arith (JDict ?kvs) = Inr ?cues"
    by code_simp
  have nums: "[0..<length ?kvs] = [0, 1, 2]"
    by code_simp
  have len: "length ?kvs' = length ?kvs"
    by simp
  have idx: "\<forall>i < length ?kvs. map_of ?kvs' (str_nat i) = map_of ?kvs (str_nat i)"
    by (simp add: less_Suc_eq str_nat_small)
  have fields: "\<forall>k \<in> set line_set_fields. map_of ?kvs' k = map_of ?kvs k"
    by (simp add: line_set_fields_def)
  have ids: "map cue ?cues = [''A'', ''B'']"
    by simp
  from VO_indexed_range [of exact_arith ?kvs ?cues ?kvs'] built len idx fields
  have emb: "subseq (indexed_ids ?kvs [0..<length ?kvs]) (map cue ?cues)"
    and same: "VO_init exact_arith (JDict ?kvs') = VO_init exact_arith (JDict ?kvs)"
    by blast+
  from emb have "subseq (indexed_ids ?kvs [0, 1, 2]) [''A'', ''B'']"
    by (simp only: nums ids)
  with built same show ?thesis
    by (intro conjI)
qed

text \<open>
  Claim C5, as stated, fails: in a dict with three keys the indices 0, 1 and 2 are tried,
  and the entry at index 2 gives a cue although index 1 is absent.
\<close>

theorem VO_gap_does_not_stop:
  "VO_init exact_arith (JDict [(''0'', JDict [(''Cue'', JStr ''/VO/A'')]),
      (''2'', JDict [(''Cue'', JStr ''/VO/B'')]), (''ChoiceText'', JStr ''x'')]) =
   Inr [\<lparr>cue = ''A'', cue_text = JNull, delay = PyInt 0, start_sound = None,
         choice = JStr ''x''\<rparr>,
        \<lparr>cue = ''B'', cue_text = JNull, delay = PyInt 0, start_sound = None,
         choice = JStr ''x''\<rparr>]"
  by code_simp

section \<open>Properties of banks\<close>

lemma repeated_from_cong:
  "set seen = set seen' \<Longrightarrow> repeated_from seen xs = repeated_from seen' xs"
proof (induction xs arbitrary: seen seen')
  case Nil
  show ?case by simp
next
  case (Cons x xs)
  from Cons.prems have mem: "(x \<in> set seen) = (x \<in> set seen')"
    by blast
  from Cons.prems have "set (x # seen) = set (x # seen')"
    by (simp only: list.set)
  then have more: "repeated_from (x # seen) xs = repeated_from (x # seen') xs"
    by (rule Cons.IH)
  have same: "repeated_from seen xs = repeated_from seen' xs"
    using Cons.prems by (rule Cons.IH)
  show ?case
    by (simp only: repeated_from.simps mem more same)
qed

lemma repeated_from_append:
  "repeated_from seen (xs @ ys) = repeated_from seen xs @ repeated_from (xs @ seen) ys"
proof (induction xs arbitrary: seen)
  case Nil
  then show ?case by simp
next
  case (Cons x xs)
  have a: "repeated_from (xs @ x # seen) ys = repeated_from (x # xs @ seen) ys"
    by (rule repeated_from_cong) auto
  have b: "x \<in> set seen \<Longrightarrow> repeated_from (xs @ seen) ys = repeated_from (x # xs @ seen) ys"
    by (rule repeated_from_cong) auto
  show ?case
    using a b by (simp add: Cons.IH)
qed

lemma keys_update:
  "set (map fst (AList.update k v al)) = insert k (set (map fst al))"
  by (induction al) auto

lemma map_of_append_present:
  "map_of comb lbl = Some v0 \<Longrightarrow> map_of (comb @ (lbl, v) # rest) = map_of (comb @ rest)"
  by (auto simp: fun_eq_iff map_add_def split: option.splits)

lemma map_of_update_append:
  "map_of comb lbl = None \<Longrightarrow>
   map_of (AList.update lbl v comb @ rest) = map_of (comb @ (lbl, v) # rest)"
  by (auto simp: update_conv' fun_eq_iff map_add_def split: option.splits)

lemma Bank_linesets_inv:
  "Bank_linesets fl items (obj, comb, warned) = Inr (obj', comb', warned') \<Longrightarrow>
   map_of comb' = map_of (comb @ built_linesets fl items) \<and>
   set (map fst comb') = set (map fst comb) \<union> set (map fst (built_linesets fl items)) \<and>
   warned' = warned @ filter not_tolerated
      (repeated_from (map fst comb) (map fst (built_linesets fl items)))"
proof (induction items arbitrary: obj comb warned)
  case Nil
  then show ?case by simp
next
  case (Cons item rest)
  obtain lbl lineset where item: "item = (lbl, lineset)"
    by (cases item)
  show ?case
  proof (cases "VO fl lineset (Some lbl)")
    case (Inl e)
    with Cons.prems item have "Bank_linesets fl rest (obj, comb, warned) = Inr (obj', comb', warned')"
      by (simp split: if_splits)
    from Cons.IH [OF this] Inl item show ?thesis by simp
  next
    case (Inr v)
    show ?thesis
    proof (cases "map_of comb lbl")
      case None
      with Cons.prems item Inr
      have "Bank_linesets fl rest (AList.update lbl v obj, AList.update lbl v comb, warned) =
          Inr (obj', comb', warned')"
        by (simp add: Let_def)
      from Cons.IH [OF this] have ih:
        "map_of comb' = map_of (AList.update lbl v comb @ built_linesets fl rest)"
        "set (map fst comb') =
           set (map fst (AList.update lbl v comb)) \<union> set (map fst (built_linesets fl rest))"
        "warned' = warned @ filter not_tolerated
           (repeated_from (map fst (AList.update lbl v comb)) (map fst (built_linesets fl rest)))"
        by simp_all
      from None have notin: "lbl \<notin> set (map fst comb)"
        by (simp add: map_of_eq_None_iff)
      have rep: "repeated_from (map fst (AList.update lbl v comb)) ls =
          repeated_from (lbl # map fst comb) ls" for ls
        by (rule repeated_from_cong) (simp only: keys_update list.set)
      have built: "built_linesets fl (item # rest) = (lbl, v) # built_linesets fl rest"
        by (simp add: item Inr)
      have "map_of comb' = map_of (comb @ built_linesets fl (item # rest))"
        by (simp only: built ih(1) map_of_update_append [OF None])
      moreover have "set (map fst comb') =
          set (map fst comb) \<union> set (map fst (built_linesets fl (item # rest)))"
        by (simp add: built ih(2) keys_update del: set_map)
      moreover have "warned' = warned @ filter not_tolerated
          (repeated_from (map fst comb) (map fst (built_linesets fl (item # rest))))"
        using notin by (simp add: built ih(3) rep del: set_map)
      ultimately show ?thesis by blast
    next
      case (Some v0)
      let ?w = "if lbl \<noteq> ''HermesPostEnding01'' then warned @ [lbl] else warned"
      from Some Cons.prems item Inr
      have "Bank_linesets fl rest (AList.update lbl v obj, comb, ?w) = Inr (obj', comb', warned')"
        by (simp add: Let_def split: if_splits)
      from Cons.IH [OF this] have ih:
        "map_of comb' = map_of (comb @ built_linesets fl rest)"
        "set (map fst comb') = set (map fst comb) \<union> set (map fst (built_linesets fl rest))"
        "warned' = ?w @ filter not_tolerated
             (repeated_from (map fst comb) (map fst (built_linesets fl rest)))"
        by simp_all
      from Some have isin: "lbl \<in> set (map fst comb)"
        by (metis map_of_eq_None_iff option.distinct(1) set_map)
      have built: "built_linesets fl (item # rest) = (lbl, v) # built_linesets fl rest"
        by (simp add: item Inr)
      have "map_of comb' = map_of (comb @ built_linesets fl (item # rest))"
        by (simp only: built ih(1) map_of_append_present [OF Some])
      moreover have "set (map fst comb') =
          set (map fst comb) \<union> set (map fst (built_linesets fl (item # rest)))"
        using isin by (auto simp add: built ih(2) simp del: set_map)
      moreover have "warned' = warned @ filter not_tolerated
          (repeated_from (map fst comb) (map fst (built_linesets fl (item # rest))))"
        using isin by (simp add: built ih(3) not_tolerated_def del: set_map)
      ultimately show ?thesis by blast
    qed
  qed
qed

lemma all_built_Cons:
  "all_built fl data ((key, name, obj) # gs) =
     built_linesets fl (group_items data key) @ all_built fl data gs"
  by (simp add: all_built_def)

lemma Bank_groups_inv:
  "Bank_groups fl data gs (visited, comb, warned) = Inr (visited', comb', warned') \<Longrightarrow>
   map_of comb' = map_of (comb @ all_built fl data gs) \<and>
   set (map fst comb') = set (map fst comb) \<union> set (map fst (all_built fl data gs)) \<and>
   warned' = warned @ filter not_tolerated
      (repeated_from (map fst comb) (map fst (all_built fl data gs)))"
proof (induction gs arbitrary: visited comb warned)
  case Nil
  then show ?case by (simp add: all_built_def)
next
  case (Cons g gs)
  obtain key name obj where g: "g = (key, name, obj)"
    by (cases g)
  let ?items = "group_items data key"
  from Cons.prems g obtain obj1 comb1 warned1 where
    inner: "Bank_linesets fl ?items (obj, comb, warned) = Inr (obj1, comb1, warned1)"
    and outer: "Bank_groups fl data gs (visited @ [(key, name, obj1)], comb1, warned1) =
      Inr (visited', comb', warned')"
    by (auto simp: group_items_def split: sum.splits bool.splits json.splits)
  from Bank_linesets_inv [OF inner] have i:
    "map_of comb1 = map_of (comb @ built_linesets fl ?items)"
    "set (map fst comb1) = set (map fst comb) \<union> set (map fst (built_linesets fl ?items))"
    "warned1 = warned @ filter not_tolerated
       (repeated_from (map fst comb) (map fst (built_linesets fl ?items)))"
    by simp_all
  from Cons.IH [OF outer] have o:
    "map_of comb' = map_of (comb1 @ all_built fl data gs)"
    "set (map fst comb') = set (map fst comb1) \<union> set (map fst (all_built fl data gs))"
    "warned' = warned1 @ filter not_tolerated
       (repeated_from (map fst comb1) (map fst (all_built fl data gs)))"
    by simp_all
  have rep: "repeated_from (map fst comb1) ls =
      repeated_from (map fst (built_linesets fl ?items) @ map fst comb) ls" for ls
    by (rule repeated_from_cong) (simp only: i(2) set_append Un_commute)
  have "map_of comb' = map_of (comb @ all_built fl data (g # gs))"
    by (simp only: g all_built_Cons o(1) map_of_append i(1) append_assoc [symmetric])
  moreover have "set (map fst comb') =
      set (map fst comb) \<union> set (map fst (all_built fl data (g # gs)))"
    by (simp only: g all_built_Cons o(2) i(2) map_append set_append Un_assoc)
  moreover have "warned' = warned @ filter not_tolerated
      (repeated_from (map fst comb) (map fst (all_built fl data (g # gs))))"
    by (simp only: g all_built_Cons o(3) i(3) rep map_append repeated_from_append
        filter_append append_assoc)
  ultimately show ?case by blast
qed

text \<open>
  Claim C7. When \<^verbatim>\<open>Bank.__init__\<close> succeeds, \<^verbatim>\<open>combined\<close> maps every label to the
  first line-set built under that label, in the order of the groups and of the items in
  each group (\<open>map_of\<close> reads the first binding), and the warnings printed are, in order,
  the repeated occurrences of labels among the line-sets built, except those of the label
  \<^verbatim>\<open>HermesPostEnding01\<close>.
\<close>

theorem Bank_combined_first:
  assumes "Bank_init fl name groups data = Inr (b, warned)"
  shows "map_of (bank_combined b) = map_of (all_built fl data groups) \<and>
         warned = filter (\<lambda>lbl. lbl \<noteq> ''HermesPostEnding01'')
           (repeated_from [] (map fst (all_built fl data groups)))"
proof -
  from assms obtain visited where
    "Bank_groups fl data groups ([], [], []) = Inr (visited, bank_combined b, warned)"
    by (auto simp: Bank_init_def split: sum.splits if_splits)
  from Bank_groups_inv [OF this] show ?thesis
    by (simp add: not_tolerated_def [abs_def])
qed

theorem Bank_combined_first_witness:
  "\<exists>b warned. Bank_init exact_arith ''HermesUpgrade'' LootBank_groups demo_loot = Inr (b, warned) \<and>
     map_of (bank_combined b) ''HermesPostEnding01'' =
       Some (demo_vo ''HermesPostEnding01'' ''Hermes_1'') \<and>
     map_of (bank_combined b) ''HermesGift01'' = Some (demo_vo ''HermesGift01'' ''Hermes_2'') \<and>
     warned = [''HermesGift01'']"
proof -
  have "case Bank_init exact_arith ''HermesUpgrade'' LootBank_groups demo_loot of
          Inr r \<Rightarrow> True | Inl e \<Rightarrow> False"
    by code_simp
  then obtain b warned where
    built: "Bank_init exact_arith ''HermesUpgrade'' LootBank_groups demo_loot = Inr (b, warned)"
    by (auto split: sum.splits)
  have all: "all_built exact_arith demo_loot LootBank_groups =
      [(''HermesPostEnding01'', demo_vo ''HermesPostEnding01'' ''Hermes_1''),
       (''HermesGift01'', demo_vo ''HermesGift01'' ''Hermes_2''),
       (''HermesPostEnding01'', demo_vo ''HermesPostEnding01'' ''Hermes_3''),
       (''HermesGift01'', demo_vo ''HermesGift01'' ''Hermes_4'')]"
    by code_simp
  show ?thesis
    using built Bank_combined_first [OF built] by (simp add: all)
qed

section \<open>Properties of the navigation\<close>

lemma commands_not_int:
  "py_int ''q'' = None" "py_int ''b'' = None" "py_int ''r'' = None"
  "py_int ''p'' = None" "py_int ''n'' = None" "py_int ''a'' = None"
  by code_simp+

lemma int_not_command:
  assumes "py_int resp = Some k"
  shows "resp \<noteq> ''q''" "resp \<noteq> ''b''" "resp \<noteq> ''r''" "resp \<noteq> ''p''" "resp \<noteq> ''n''" "resp \<noteq> ''a''"
  using assms commands_not_int by auto

lemma menu_of_num_options:
  "menu_of options stack playing = Inr m \<Longrightarrow>
   num_options m = (if length stack = 4 then length (prev_options (last stack)) else length options)"
  by (auto simp: menu_of_def Let_def split: if_splits)

lemma menu_of_defined:
  "stack \<noteq> [] \<or> \<not> playing \<Longrightarrow> \<exists>m. menu_of options stack playing = Inr m"
  by (auto simp: menu_of_def Let_def)

lemma respond_number:
  assumes m: "menu_of options stack playing = Inr m"
    and k: "py_int resp = Some k" "1 \<le> k" "k \<le> int (num_options m)"
  shows "respond m options stack resp =
     Some (if length stack = 4 then reselect stack (nat (k - 1)) PLAY
           else descend options stack (nat (k - 1)) AOption)"
proof -
  from k have "num_options m > 0"
    by linarith
  with k int_not_command [OF k(1)] show ?thesis
    by (simp add: respond_def)
qed

lemma respond_out_of_range:
  assumes k: "py_int resp = Some k" "k < 1 \<or> int (num_options m) < k"
  shows "respond m options stack resp = None"
  using k int_not_command [OF k(1)] by (auto simp: respond_def)

lemma respond_back:
  "stack \<noteq> [] \<Longrightarrow> respond m options stack ''b'' = Some (Return (ABreadcrumb (last stack), butlast stack))"
  by (simp add: respond_def)

lemma process_options_choose:
  assumes "length stack \<noteq> 4" "\<not> playing"
    and k: "py_int (py_lower (py_strip line)) = Some k" "1 \<le> k" "k \<le> int (length options)"
  shows "process_options options stack playing (line # rest) =
     (Return (AOption (options ! nat (k - 1)),
              stack @ [\<lparr>bc_option = options ! nat (k - 1), prev_options = options\<rparr>]), rest)"
proof -
  from assms(2) obtain m where m: "menu_of options stack playing = Inr m"
    using menu_of_defined by blast
  with assms(1) have n: "num_options m = length options"
    by (simp add: menu_of_num_options)
  from k have "nat (k - 1) < length options"
    by linarith
  with respond_number [OF m k(1,2)] k(3) n assms(1) show ?thesis
    by (simp add: process_options_def m descend_def py_nth_def)
qed

lemma process_options_back:
  assumes "stack \<noteq> []" "py_lower (py_strip line) = ''b''"
  shows "process_options options stack playing (line # rest) =
     (Return (ABreadcrumb (last stack), butlast stack), rest)"
proof -
  from assms(1) obtain m where m: "menu_of options stack playing = Inr m"
    using menu_of_defined by blast
  with assms show ?thesis
    by (simp add: process_options_def respond_back)
qed

lemma process_options_reselect:
  assumes "length stack = 4"
    and k: "py_int (py_lower (py_strip line)) = Some k" "1 \<le> k"
      "k \<le> int (length (prev_options (last stack)))"
  shows "process_options options stack playing (line # rest) =
     (Return (AResult PLAY,
        set_top_option stack (prev_options (last stack) ! nat (k - 1))),
      rest)"
proof -
  from assms(1) have ne: "stack \<noteq> []"
    by auto
  then obtain m where m: "menu_of options stack playing = Inr m"
    using menu_of_defined by blast
  with assms(1) have n: "num_options m = length (prev_options (last stack))"
    by (simp add: menu_of_num_options)
  from k have "nat (k - 1) < length (prev_options (last stack))"
    by linarith
  with respond_number [OF m k(1,2)] k(3) n assms(1) ne show ?thesis
    by (simp add: process_options_def m reselect_def py_nth_def)
qed

lemma process_options_reject:
  assumes "length stack = 4"
    and k: "py_int (py_lower (py_strip line)) = Some k"
      "k < 1 \<or> int (length (prev_options (last stack))) < k"
  shows "process_options options stack playing (line # rest) =
         process_options options stack playing rest"
proof (cases "menu_of options stack playing")
  case (Inl e)
  from assms(1) have "stack \<noteq> []"
    by auto
  with Inl show ?thesis
    using menu_of_defined [of stack playing options] by simp
next
  case (Inr m)
  with assms(1) have "num_options m = length (prev_options (last stack))"
    by (simp add: menu_of_num_options)
  with k have "respond m options stack (py_lower (py_strip line)) = None"
    by (intro respond_out_of_range) auto
  with Inr show ?thesis
    by (simp add: process_options_def)
qed

lemma fill_options_fits:
  assumes "rs_options st = None" "1 \<le> length (rs_stack st)" "length (rs_stack st) \<le> 4"
    and "fits (length (rs_stack st)) (top_data (rs_stack st))"
  shows "\<exists>options. fill_options a st =
     Return (st\<lparr>rs_playing := (rs_playing st \<or> length (rs_stack st) = 4),
                rs_options := Some options\<rparr>)"
proof -
  from assms(2,3) consider "length (rs_stack st) = 1" | "length (rs_stack st) = 2"
    | "length (rs_stack st) = 3" | "length (rs_stack st) = 4"
    by linarith
  then show ?thesis
  proof cases
    case 1
    with assms show ?thesis
      by (cases "top_data (rs_stack st)")
        (auto simp: fill_options_def fits_def entity_options_def)
  next
    case 2
    with assms show ?thesis
      by (cases "top_data (rs_stack st)")
        (auto simp: fill_options_def fits_def bucket_options_def)
  next
    case 3
    with assms show ?thesis
      by (cases "top_data (rs_stack st)")
        (auto simp: fill_options_def fits_def lineset_options_def)
  next
    case 4
    with assms show ?thesis
      by (auto simp: fill_options_def)
  qed
qed

lemma state_cases:
  "rs_options st = Some options \<Longrightarrow> fill_options a st = Return st"
  by (simp add: fill_options_def)

lemma autoplay_step_off:
  "\<not> rs_autoplaying st \<Longrightarrow> autoplay_step st waits = Return (False, st, waits)"
  by (simp add: autoplay_step_def)

lemma demo_numbers:
  "py_int (py_lower (py_strip ''1'')) = Some 1" "py_int (py_lower (py_strip ''2'')) = Some 2"
  "py_int (py_lower (py_strip ''3'')) = Some 3" "py_lower (py_strip ''b'') = ''b''"
  by code_simp+

text \<open>
  Claim C8, as the code has it. At a menu of depth 0 to 3 (nothing playing), a number in
  the range of the options pushes a frame that records the option chosen and the whole
  list of options, and hands the rest of the input to the next pass; \<^verbatim>\<open>b\<close> in that
  next pass pops this frame and makes the list stored on it the current options, so that
  the two passes together leave every variable of the loop as it was. (The data of the
  option chosen is of the kind its depth has in a session.)
\<close>

theorem choose_then_back:
  assumes st: "rs_options st = Some options" "\<not> rs_playing st" "\<not> rs_autoplaying st"
    and depth: "length (rs_stack st) < 4"
    and k: "py_int (py_lower (py_strip line)) = Some k" "1 \<le> k" "k \<le> int (length options)"
    and data: "fits (Suc (length (rs_stack st))) (o_data (options ! nat (k - 1)))"
    and bline: "py_lower (py_strip again) = ''b''"
  shows "\<exists>st1 played.
      run_iter a st (line # again # lines, waits) = ([], Return (st1, again # lines, waits)) \<and>
      rs_stack st1 =
        rs_stack st @ [\<lparr>bc_option = options ! nat (k - 1), prev_options = options\<rparr>] \<and>
      run_iter a st1 (again # lines, waits) = (played, Return (st, lines, waits))"
proof -
  let ?bc = "\<lparr>bc_option = options ! nat (k - 1), prev_options = options\<rparr>"
  let ?st1 = "st\<lparr>rs_stack := rs_stack st @ [?bc], rs_options := None\<rparr>"
  from depth have ne4: "length (rs_stack st) \<noteq> 4"
    by simp
  have first: "run_iter a st (line # again # lines, waits) =
      ([], Return (?st1, again # lines, waits))"
    using st process_options_choose [OF ne4 st(2) k, of "again # lines"]
    by (simp add: run_iter_def state_cases play_current_def autoplay_step_off dispatch_def)
  have top: "top_data (rs_stack st @ [?bc]) = o_data (options ! nat (k - 1))"
    by (simp add: top_data_def)
  have "\<exists>opts2. fill_options a ?st1 =
      Return (?st1\<lparr>rs_playing := (rs_playing ?st1 \<or> length (rs_stack ?st1) = 4),
                    rs_options := Some opts2\<rparr>)"
    using depth data by (intro fill_options_fits) (simp_all add: top)
  then obtain opts2 where
    fill: "fill_options a ?st1 =
      Return (?st1\<lparr>rs_playing := (rs_playing ?st1 \<or> length (rs_stack ?st1) = 4),
                    rs_options := Some opts2\<rparr>)"
    by blast
  let ?st2 = "?st1\<lparr>rs_playing := (rs_playing ?st1 \<or> length (rs_stack ?st1) = 4),
                    rs_options := Some opts2\<rparr>"
  from data st(2) obtain played where played: "play_current ?st2 = Inr played"
    by (cases "o_data (options ! nat (k - 1))")
      (auto simp: play_current_def fits_def top_data_def)
  have auto_off: "autoplay_step ?st2 waits = Return (False, ?st2, waits)"
    using st(3) by (simp add: autoplay_step_off)
  have po: "process_options opts2 (rs_stack ?st2) (rs_playing ?st2) (again # lines) =
      (Return (ABreadcrumb ?bc, rs_stack st), lines)"
    using process_options_back [of "rs_stack ?st2" again opts2 "rs_playing ?st2" lines] bline
    by simp
  have "dispatch ?st2 (ABreadcrumb ?bc) (rs_stack st) = st"
    using st by (simp add: dispatch_def)
  with fill played auto_off po
  have second: "run_iter a ?st1 (again # lines, waits) = (played, Return (st, lines, waits))"
    by (simp add: run_iter_def)
  from first second show ?thesis
    by (intro exI [of _ ?st1] exI [of _ played]) simp
qed

theorem choose_then_back_witness:
  "\<exists>st1 played.
     run_iter demo_app
       \<lparr>rs_playing = False, rs_autoplaying = False, rs_options = Some demo_linesets,
        rs_stack = demo_stack3\<rparr> ([''2'', ''b''], []) = ([], Return (st1, [''b''], [])) \<and>
     rs_stack st1 = demo_stack4 1 \<and>
     run_iter demo_app st1 ([''b''], []) =
       (played, Return (\<lparr>rs_playing = False, rs_autoplaying = False,
                         rs_options = Some demo_linesets, rs_stack = demo_stack3\<rparr>, [], []))"
proof -
  let ?st = "\<lparr>rs_playing = False, rs_autoplaying = False, rs_options = Some demo_linesets,
        rs_stack = demo_stack3\<rparr>"
  have depth: "length (rs_stack ?st) < 4"
    by (simp add: demo_stack3_def)
  have range: "(2::int) \<le> int (length demo_linesets)"
    by (simp add: demo_linesets_def)
  have data: "fits (Suc (length (rs_stack ?st))) (o_data (demo_linesets ! nat (2 - 1)))"
    by (simp add: demo_stack3_def demo_linesets_def fits_def)
  have pushed: "demo_stack3 @ [\<lparr>bc_option = demo_linesets ! nat (2 - 1),
      prev_options = demo_linesets\<rparr>] = demo_stack4 1"
    by (simp add: demo_stack4_def)
  show ?thesis
    using choose_then_back [of ?st demo_linesets "''2''" 2 "''b''" demo_app "[]" "[]",
        OF _ _ _ depth demo_numbers(2) _ range data demo_numbers(4)] pushed
    by simp
qed

text \<open>
  Claim C8, as stated, fails at depth 4, where the stack is not empty either: a number
  there pushes no frame but replaces the selection of the top frame, and \<^verbatim>\<open>b\<close> then
  leaves depth 4. After \<^verbatim>\<open>r\<close> the session shows no options on a stack of four frames;
  after \<^verbatim>\<open>2\<close> and \<^verbatim>\<open>b\<close> it shows the two line-sets on a stack of three.
\<close>

theorem choose_at_depth_four_then_back:
  "map_option (\<lambda>st. (map_option (map o_label) (rs_options st), length (rs_stack st)))
     (state_after demo_app 5 [''1'', ''1'', ''1'', ''1'', ''r''] []) = Some (Some [], 4) \<and>
   map_option (\<lambda>st. (map_option (map o_label) (rs_options st), length (rs_stack st)))
     (state_after demo_app 7 [''1'', ''1'', ''1'', ''1'', ''r'', ''2'', ''b''] []) =
     Some (Some [''HermesGift01'', ''HermesGift02''], 3)"
  by code_simp

text \<open>
  Claim C9. In autoplay at depth 4, a pass of the loop that plays the line-set at the last
  position of its sibling list ends autoplay, pops the frame, makes the sibling list
  stored on that frame the current options and clears \<^verbatim>\<open>playing\<close>, without reading
  any input: the session does not stay on the last line-set.
\<close>

theorem autoplay_ends_on_last:
  assumes "rs_autoplaying st" "length (rs_stack st) = 4" "rs_playing st \<or> rs_options st = None"
    and "top_data (rs_stack st) = DVO v"
    and "int (o_pos (bc_option (last (rs_stack st)))) =
         int (length (prev_options (last (rs_stack st)))) - 1"
  shows "run_iter a st env =
     ([v], Return (\<lparr>rs_playing = False, rs_autoplaying = False,
                    rs_options = Some (prev_options (last (rs_stack st))),
                    rs_stack = butlast (rs_stack st)\<rparr>, env))"
proof -
  from assms(2) have ne: "rs_stack st \<noteq> []"
    by auto
  obtain st1 where fill: "fill_options a st = Return st1"
    and st1: "rs_playing st1" "rs_autoplaying st1" "rs_stack st1 = rs_stack st"
    using assms(1,2,3) by (cases "rs_options st") (auto simp: fill_options_def)
  from st1 ne assms(4) have play: "play_current st1 = Inr [v]"
    by (simp add: play_current_def)
  from st1 ne assms(5) have "autoplay_step st1 (snd env) =
     Return (True, \<lparr>rs_playing = False, rs_autoplaying = False,
                    rs_options = Some (prev_options (last (rs_stack st))),
                    rs_stack = butlast (rs_stack st)\<rparr>, snd env)"
    by (simp add: autoplay_step_def Let_def)
  with fill play show ?thesis
    by (simp add: run_iter_def)
qed

theorem autoplay_ends_on_last_witness:
  "run_iter demo_app
     \<lparr>rs_playing = True, rs_autoplaying = True, rs_options = Some [], rs_stack = demo_stack4 1\<rparr>
     ([], []) =
   ([demo_vo ''HermesGift02'' ''Hermes_2''],
    Return (\<lparr>rs_playing = False, rs_autoplaying = False, rs_options = Some demo_linesets,
             rs_stack = demo_stack3\<rparr>, [], []))"
proof -
  let ?st = "\<lparr>rs_playing = True, rs_autoplaying = True, rs_options = Some [],
     rs_stack = demo_stack4 1\<rparr>"
  have depth: "length (rs_stack ?st) = 4"
    by (simp add: demo_stack4_def demo_stack3_def)
  have top: "top_data (rs_stack ?st) = DVO (demo_vo ''HermesGift02'' ''Hermes_2'')"
    by (simp add: top_data_def demo_stack4_def demo_linesets_def)
  have pos: "int (o_pos (bc_option (last (rs_stack ?st)))) =
      int (length (prev_options (last (rs_stack ?st)))) - 1"
    by (simp add: demo_stack4_def demo_linesets_def)
  show ?thesis
    using autoplay_ends_on_last [of ?st _ demo_app "([], [])", OF _ depth _ top pos]
    by (simp add: demo_stack4_def)
qed

text \<open>
  Claim C10. At depth 4, with a line-set playing, a number is accepted when it lies
  between 1 and the length of the sibling list stored on the top frame, whatever the
  current options are (they are empty there): the pass plays the current line-set,
  replaces the selection of the top frame by the sibling at that number and keeps four
  frames, and the next pass plays that sibling. A number outside the range is refused and
  the prompt is repeated.
\<close>

theorem number_at_depth_four:
  assumes st: "length (rs_stack st) = 4" "rs_playing st" "\<not> rs_autoplaying st"
      "rs_options st = Some options"
    and v: "top_data (rs_stack st) = DVO v"
    and k: "py_int (py_lower (py_strip line)) = Some k"
  shows "(1 \<le> k \<and> k \<le> int (length (prev_options (last (rs_stack st)))) \<longrightarrow>
          run_iter a st (line # lines, waits) =
            ([v], Return (st\<lparr>rs_stack := set_top_option (rs_stack st)
                               (prev_options (last (rs_stack st)) ! nat (k - 1))\<rparr>,
                          lines, waits)) \<and>
          length (set_top_option (rs_stack st)
                    (prev_options (last (rs_stack st)) ! nat (k - 1))) = 4 \<and>
          (\<forall>v' env. o_data (prev_options (last (rs_stack st)) ! nat (k - 1)) = DVO v' \<longrightarrow>
             fst (run_iter a (st\<lparr>rs_stack := set_top_option (rs_stack st)
                               (prev_options (last (rs_stack st)) ! nat (k - 1))\<rparr>) env) = [v'])) \<and>
         (k < 1 \<or> int (length (prev_options (last (rs_stack st)))) < k \<longrightarrow>
          run_iter a st (line # lines, waits) = run_iter a st (lines, waits))"
proof (intro conjI impI allI)
  assume range: "1 \<le> k \<and> k \<le> int (length (prev_options (last (rs_stack st))))"
  let ?sib = "prev_options (last (rs_stack st)) ! nat (k - 1)"
  from st(1) have ne: "rs_stack st \<noteq> []"
    by auto
  from st(2) ne v have play: "play_current st = Inr [v]"
    by (simp add: play_current_def)
  from range have po: "process_options options (rs_stack st) (rs_playing st) (line # lines) =
      (Return (AResult PLAY, set_top_option (rs_stack st) ?sib), lines)"
    using process_options_reselect [OF st(1) k] by simp
  show "run_iter a st (line # lines, waits) =
      ([v], Return (st\<lparr>rs_stack := set_top_option (rs_stack st) ?sib\<rparr>, lines, waits))"
    using st play po by (simp add: run_iter_def state_cases autoplay_step_off dispatch_def)
  show "length (set_top_option (rs_stack st) ?sib) = 4"
    using st(1) ne by (simp add: set_top_option_def)
  fix v' env
  assume "o_data ?sib = DVO v'"
  then have "play_current (st\<lparr>rs_stack := set_top_option (rs_stack st) ?sib\<rparr>) = Inr [v']"
    using st(2) by (simp add: play_current_def set_top_option_def top_data_def)
  then show "fst (run_iter a (st\<lparr>rs_stack := set_top_option (rs_stack st) ?sib\<rparr>) env) = [v']"
    using st(4) by (simp add: run_iter_def state_cases)
next
  assume "k < 1 \<or> int (length (prev_options (last (rs_stack st)))) < k"
  then have "process_options options (rs_stack st) (rs_playing st) (line # lines) =
      process_options options (rs_stack st) (rs_playing st) lines"
    using process_options_reject [OF st(1) k] by simp
  moreover from st(1,2) v have "play_current st = Inr [v]"
    by (auto simp: play_current_def)
  ultimately show "run_iter a st (line # lines, waits) = run_iter a st (lines, waits)"
    using st by (simp add: run_iter_def state_cases autoplay_step_off)
qed

theorem number_at_depth_four_witness:
  "run_iter demo_app
     \<lparr>rs_playing = True, rs_autoplaying = False, rs_options = Some [], rs_stack = demo_stack4 0\<rparr>
     ([''2''], []) =
   ([demo_vo ''HermesGift01'' ''Hermes_1''],
    Return (\<lparr>rs_playing = True, rs_autoplaying = False, rs_options = Some [],
             rs_stack = demo_stack4 1\<rparr>, [], [])) \<and>
   fst (run_iter demo_app
     \<lparr>rs_playing = True, rs_autoplaying = False, rs_options = Some [], rs_stack = demo_stack4 1\<rparr>
     ([], [])) = [demo_vo ''HermesGift02'' ''Hermes_2''] \<and>
   run_iter demo_app
     \<lparr>rs_playing = True, rs_autoplaying = False, rs_options = Some [], rs_stack = demo_stack4 0\<rparr>
     ([''3'', ''2''], []) =
   run_iter demo_app
     \<lparr>rs_playing = True, rs_autoplaying = False, rs_options = Some [], rs_stack = demo_stack4 0\<rparr>
     ([''2''], [])"
proof -
  let ?st = "\<lparr>rs_playing = True, rs_autoplaying = False, rs_options = Some [],
     rs_stack = demo_stack4 0\<rparr>"
  have depth: "length (rs_stack ?st) = 4"
    by (simp add: demo_stack4_def demo_stack3_def)
  have top: "top_data (rs_stack ?st) = DVO (demo_vo ''HermesGift01'' ''Hermes_1'')"
    by (simp add: top_data_def demo_stack4_def demo_linesets_def)
  have len: "length demo_linesets = 2"
    by (simp add: demo_linesets_def)
  have sib: "set_top_option (demo_stack4 0) (demo_linesets ! Suc 0) = demo_stack4 1"
    by (simp add: set_top_option_def demo_stack4_def)
  have sib_data: "o_data (demo_linesets ! Suc 0) = DVO (demo_vo ''HermesGift02'' ''Hermes_2'')"
    by (simp add: demo_linesets_def)
  have prev: "prev_options (last (demo_stack4 0)) = demo_linesets"
    by (simp add: demo_stack4_def)
  have chosen: "run_iter demo_app ?st ([''2''], []) =
     ([demo_vo ''HermesGift01'' ''Hermes_1''],
      Return (?st\<lparr>rs_stack := demo_stack4 1\<rparr>, [], [])) \<and>
    fst (run_iter demo_app (?st\<lparr>rs_stack := demo_stack4 1\<rparr>) ([], [])) =
      [demo_vo ''HermesGift02'' ''Hermes_2'']"
    using number_at_depth_four [of ?st "[]" _ "''2''" 2 demo_app "[]" "[]",
        OF depth _ _ _ top demo_numbers(2)] sib_data
    by (simp add: len prev sib)
  have rejected: "run_iter demo_app ?st ([''3'', ''2''], []) = run_iter demo_app ?st ([''2''], [])"
    using number_at_depth_four [of ?st "[]" _ "''3''" 3 demo_app "[''2'']" "[]",
        OF depth _ _ _ top demo_numbers(3)]
    by (simp add: len prev)
  from chosen rejected show ?thesis
    by simp
qed

end
